theory Spec2Isabelle
  imports Complex_Main "HOL-Library.Word"
begin

section \<open>Errors, dtypes and tensors\<close>

text \<open>
  The layers of \<^verbatim>\<open>flax/nn/linear.py\<close> are glue over the array framework. Every
  \<^verbatim>\<open>raise\<close>, failed \<^verbatim>\<open>assert\<close> and failing primitive is a value \<open>Inl e\<close>.
  The two \<^verbatim>\<open>ValueError\<close>s of the file are told apart by their raise site:
  \<open>ValueError_batch_dims\<close> (line 75, "batch_dims ... must be consecutive leading
  dimensions starting from 0.") and \<open>ValueError_input_type\<close> (line 268, "Input type must
  be an integer or unsigned integer."). An error raised inside a primitive of the array
  framework is a \<open>PrimitiveError\<close> with its message.
\<close>

datatype error =
  ValueError_batch_dims
| ValueError_input_type
| AssertionError
| IndexError
| ZeroDivisionError
| PrimitiveError string

datatype dtype =
  bool_ | int8 | int16 | int32 | int64 | uint8 | uint16 | uint32 | uint64
| float16 | bfloat16 | float32 | float64 | complex64 | complex128

datatype precision = DEFAULT | HIGH | HIGHEST

text \<open>
  An n-dimensional array: its shape, its dtype tag and its elements in row-major order.
  Elements live in an exact arithmetic type \<open>'a\<close>; rounding is not modelled.
\<close>

record 'a tensor =
  shape :: "nat list"
  dtype :: dtype
  data :: "'a list"

definition ndim :: "'a tensor \<Rightarrow> nat" where
  "ndim t = length (shape t)"

definition wf_tensor :: "'a tensor \<Rightarrow> bool" where
  "wf_tensor t \<longleftrightarrow> length (data t) = prod_list (shape t)"

text \<open>All multi-indices of a shape in row-major order, and the flat position of one.\<close>

definition indices :: "nat list \<Rightarrow> nat list list" where
  "indices shp = product_lists (map (\<lambda>n. [0..<n]) shp)"

fun ravel :: "nat list \<Rightarrow> nat list \<Rightarrow> nat" where
  "ravel (n # ns) (i # ix) = i * prod_list ns + ravel ns ix"
| "ravel _ _ = 0"

definition item :: "'a tensor \<Rightarrow> nat list \<Rightarrow> 'a" where
  "item t ix = data t ! ravel (shape t) ix"

definition in_bounds :: "nat list \<Rightarrow> int list \<Rightarrow> bool" where
  "in_bounds shp ix \<longleftrightarrow>
     length ix = length shp \<and> (\<forall>k < length shp. 0 \<le> ix ! k \<and> ix ! k < int (shp ! k))"

text \<open>Python's \<^verbatim>\<open>t.shape[ax]\<close>: a negative index counts from the end, out of range raises.\<close>

definition shape_at :: "'a tensor \<Rightarrow> int \<Rightarrow> error + nat" where
  "shape_at t ax =
     (let n = int (ndim t); j = (if ax < 0 then n + ax else ax)
      in if 0 \<le> j \<and> j < n then Inr (shape t ! nat j) else Inl IndexError)"

fun mapM :: "('x \<Rightarrow> error + 'y) \<Rightarrow> 'x list \<Rightarrow> error + 'y list" where
  "mapM f [] = Inr []"
| "mapM f (x # xs) =
     (case f x of
        Inl e \<Rightarrow> Inl e
      | Inr y \<Rightarrow> (case mapM f xs of Inl e \<Rightarrow> Inl e | Inr ys \<Rightarrow> Inr (y # ys)))"

fun foldM :: "('y \<Rightarrow> 'x \<Rightarrow> error + 'y) \<Rightarrow> 'y \<Rightarrow> 'x list \<Rightarrow> error + 'y" where
  "foldM f a [] = Inr a"
| "foldM f a (x # xs) = (case f a x of Inl e \<Rightarrow> Inl e | Inr b \<Rightarrow> foldM f b xs)"

text \<open>An argument that is a scalar or a tuple (\<^verbatim>\<open>isinstance(x, Iterable)\<close>).\<close>

datatype 'x scalar_or_tuple = Scalar 'x | Tuple "'x list"

fun as_tuple :: "'x scalar_or_tuple \<Rightarrow> 'x list" where
  "as_tuple (Scalar x) = [x]"
| "as_tuple (Tuple xs) = xs"

section \<open>The array framework's primitives\<close>

text \<open>
  The framework is not part of the repository. Its dtype conversion of element values and
  its binary type promotion are parameters of the model; the primitives the layers call are
  modelled after their documented semantics.
\<close>

record 'a framework =
  cast :: "dtype \<Rightarrow> dtype \<Rightarrow> 'a \<Rightarrow> 'a"
  promote_types :: "dtype \<Rightarrow> dtype \<Rightarrow> dtype"

text \<open>\<^verbatim>\<open>jnp.asarray(t, dt)\<close>: a tensor that already has dtype \<open>dt\<close> is returned as it is.\<close>

definition asarray :: "'a framework \<Rightarrow> 'a tensor \<Rightarrow> dtype \<Rightarrow> 'a tensor" where
  "asarray fw t dt =
     (if dtype t = dt then t
      else t\<lparr>dtype := dt, data := map (cast fw (dtype t) dt) (data t)\<rparr>)"

text \<open>\<^verbatim>\<open>jnp.reshape\<close> to a shape of the same size.\<close>

definition reshape :: "'a tensor \<Rightarrow> nat list \<Rightarrow> error + 'a tensor" where
  "reshape t shp =
     (if prod_list shp = length (data t) then Inr (t\<lparr>shape := shp\<rparr>)
      else Inl (PrimitiveError ''cannot reshape array''))"

text \<open>
  \<^verbatim>\<open>jnp.expand_dims(t, ax)\<close> inserts an axis of size one at position \<open>ax\<close>; a position
  outside \<open>[-(ndim + 1), ndim]\<close> is rejected.
\<close>

definition expand_dims :: "'a tensor \<Rightarrow> int \<Rightarrow> error + 'a tensor" where
  "expand_dims t ax =
     (let r = int (ndim t); a = (if ax < 0 then ax + r + 1 else ax)
      in if 0 \<le> a \<and> a \<le> r
         then Inr (t\<lparr>shape := take (nat a) (shape t) @ [1] @ drop (nat a) (shape t)\<rparr>)
         else Inl (PrimitiveError ''axis out of bounds''))"

text \<open>
  \<^verbatim>\<open>jnp.concatenate(ts, axis=0)\<close>: at least one array, none of rank zero, all of the
  same shape behind the first axis. In row-major order the elements are appended.
\<close>

definition result_type :: "'a framework \<Rightarrow> dtype list \<Rightarrow> dtype" where
  "result_type fw ds =
     (if list_all (\<lambda>d. d = hd ds) ds then hd ds else foldl (promote_types fw) (hd ds) (tl ds))"

definition concatenate :: "'a framework \<Rightarrow> 'a tensor list \<Rightarrow> error + 'a tensor" where
  "concatenate fw ts =
     (if ts = [] then Inl (PrimitiveError ''Need at least one array to concatenate.'')
      else if list_ex (\<lambda>t. shape t = []) ts then
        Inl (PrimitiveError ''Zero-dimensional arrays cannot be concatenated.'')
      else if list_ex (\<lambda>t. tl (shape t) \<noteq> tl (shape (hd ts))) ts then
        Inl (PrimitiveError ''Cannot concatenate arrays with different shapes.'')
      else
        let dt = result_type fw (map dtype ts)
        in Inr \<lparr>shape = sum_list (map (\<lambda>t. hd (shape t)) ts) # tl (shape (hd ts)),
                dtype = dt,
                data = concat (map (\<lambda>t. data (asarray fw t dt)) ts)\<rparr>)"

text \<open>
  Broadcasting (the numpy rule): shapes are aligned at their last axes, the shorter one is
  extended by ones on the left, and an axis of size one is stretched.
\<close>

definition broadcast_shapes :: "nat list \<Rightarrow> nat list \<Rightarrow> error + nat list" where
  "broadcast_shapes s1 s2 =
     (let r = max (length s1) (length s2);
          p1 = replicate (r - length s1) 1 @ s1;
          p2 = replicate (r - length s2) 1 @ s2
      in if \<forall>(a, b) \<in> set (zip p1 p2). a = b \<or> a = 1 \<or> b = 1
         then Inr (map (\<lambda>(a, b). if a = 1 then b else a) (zip p1 p2))
         else Inl (PrimitiveError ''Incompatible shapes for broadcasting''))"

definition bcast_index :: "nat list \<Rightarrow> nat list \<Rightarrow> nat list" where
  "bcast_index shp ix =
     map (\<lambda>(d, i). if d = 1 then 0 else i) (zip shp (drop (length ix - length shp) ix))"

text \<open>\<^verbatim>\<open>a + b\<close> on arrays: both operands are promoted to a common dtype, then broadcast.\<close>

definition add :: "'a::plus framework \<Rightarrow> 'a tensor \<Rightarrow> 'a tensor \<Rightarrow> error + 'a tensor" where
  "add fw a b =
     (case broadcast_shapes (shape a) (shape b) of
        Inl e \<Rightarrow> Inl e
      | Inr shp \<Rightarrow>
          let dt = promote_types fw (dtype a) (dtype b);
              a' = asarray fw a dt;
              b' = asarray fw b dt
          in Inr \<lparr>shape = shp, dtype = dt,
                  data = map (\<lambda>ix. item a' (bcast_index (shape a) ix) + item b' (bcast_index (shape b) ix))
                             (indices shp)\<rparr>)"

text \<open>
  \<^verbatim>\<open>lax.dot_general\<close>: the operands have one dtype; the output has the batch axes, then
  the free axes of the left operand, then the free axes of the right operand; each element
  sums the products over the contracted axes. The precision is ignored in exact arithmetic.
\<close>

definition valid_dims :: "nat \<Rightarrow> int list \<Rightarrow> bool" where
  "valid_dims r ds \<longleftrightarrow> (\<forall>d \<in> set ds. 0 \<le> d \<and> d < int r) \<and> distinct ds"

definition scatter_index :: "nat list \<Rightarrow> nat list \<Rightarrow> nat list \<Rightarrow> nat list" where
  "scatter_index dims vals ix = fold (\<lambda>(d, v) jx. jx[d := v]) (zip dims vals) ix"

definition free_dims :: "nat \<Rightarrow> nat list \<Rightarrow> nat list" where
  "free_dims r used = filter (\<lambda>i. i \<notin> set used) [0..<r]"

definition dot_general_check ::
  "'a tensor \<Rightarrow> 'a tensor \<Rightarrow> int list \<Rightarrow> int list \<Rightarrow> int list \<Rightarrow> int list \<Rightarrow>
   error option" where
  "dot_general_check lhs rhs lhs_contract rhs_contract lhs_batch rhs_batch =
     (if dtype lhs \<noteq> dtype rhs then
        Some (PrimitiveError ''dot_general requires arguments of the same dtype'')
      else if \<not> valid_dims (ndim lhs) (lhs_contract @ lhs_batch)
            \<or> \<not> valid_dims (ndim rhs) (rhs_contract @ rhs_batch)
            \<or> length lhs_batch \<noteq> length rhs_batch
            \<or> length lhs_contract \<noteq> length rhs_contract then
        Some (PrimitiveError ''dot_general: invalid dimension numbers'')
      else if map ((!) (shape lhs)) (map nat lhs_batch) \<noteq> map ((!) (shape rhs)) (map nat rhs_batch)
            \<or> map ((!) (shape lhs)) (map nat lhs_contract)
                \<noteq> map ((!) (shape rhs)) (map nat rhs_contract) then
        Some (PrimitiveError ''dot_general: dimension sizes must agree'')
      else None)"

definition dot_general_elem ::
  "'a::semiring_0 tensor \<Rightarrow> 'a tensor \<Rightarrow> nat list \<Rightarrow> nat list \<Rightarrow> nat list \<Rightarrow> nat list \<Rightarrow>
   nat list \<Rightarrow> 'a" where
  "dot_general_elem lhs rhs lc rc lb rb ix =
     (let lf = free_dims (ndim lhs) (lc @ lb); rf = free_dims (ndim rhs) (rc @ rb);
          b = take (length lb) ix;
          i = take (length lf) (drop (length lb) ix);
          j = drop (length lb + length lf) ix
      in sum_list (map (\<lambda>c.
             item lhs (scatter_index lf i (scatter_index lc c
                       (scatter_index lb b (replicate (ndim lhs) 0))))
           * item rhs (scatter_index rf j (scatter_index rc c
                       (scatter_index rb b (replicate (ndim rhs) 0)))))
           (indices (map ((!) (shape lhs)) lc))))"

definition dot_general_shape :: "'a tensor \<Rightarrow> 'a tensor \<Rightarrow> nat list \<Rightarrow> nat list \<Rightarrow> nat list \<Rightarrow> nat list \<Rightarrow> nat list" where
  "dot_general_shape lhs rhs lc rc lb rb =
     map ((!) (shape lhs)) lb
     @ map ((!) (shape lhs)) (free_dims (ndim lhs) (lc @ lb))
     @ map ((!) (shape rhs)) (free_dims (ndim rhs) (rc @ rb))"

definition dot_general ::
  "'a::semiring_0 tensor \<Rightarrow> 'a tensor \<Rightarrow> (int list \<times> int list) \<times> (int list \<times> int list) \<Rightarrow>
   precision option \<Rightarrow> error + 'a tensor" where
  "dot_general lhs rhs dimension_numbers prec =
     (case dimension_numbers of ((lhs_contract, rhs_contract), (lhs_batch, rhs_batch)) \<Rightarrow>
        (case dot_general_check lhs rhs lhs_contract rhs_contract lhs_batch rhs_batch of
           Some e \<Rightarrow> Inl e
         | None \<Rightarrow>
             let lc = map nat lhs_contract; rc = map nat rhs_contract;
                 lb = map nat lhs_batch; rb = map nat rhs_batch
             in Inr \<lparr>shape = dot_general_shape lhs rhs lc rc lb rb, dtype = dtype lhs,
                     data = map (dot_general_elem lhs rhs lc rc lb rb)
                                (indices (dot_general_shape lhs rhs lc rc lb rb))\<rparr>))"

text \<open>
  \<^verbatim>\<open>lax.gather\<close>. The last axis of \<open>start_indices\<close> holds the index vector, its other axes
  are batch axes of the output. The output axes listed in \<open>offset_dims\<close> run over the slice
  (the operand axes that are not collapsed, in order); the others run over the batch axes.
  Start positions are clamped so that the slice fits; a position that is still outside the
  operand is an error.
\<close>

record gather_dnums =
  offset_dims :: "int list"
  collapsed_slice_dims :: "nat list"
  start_index_map :: "nat list"

fun gather_shape :: "int list \<Rightarrow> int list \<Rightarrow> nat list \<Rightarrow> nat list \<Rightarrow> nat list option" where
  "gather_shape [] od ss bs = Some []"
| "gather_shape (i # is) od ss bs =
     (if i \<in> set od
      then (case ss of [] \<Rightarrow> None | s # ss' \<Rightarrow> map_option ((#) s) (gather_shape is od ss' bs))
      else (case bs of [] \<Rightarrow> None | b # bs' \<Rightarrow> map_option ((#) b) (gather_shape is od ss bs')))"

definition clamp :: "int \<Rightarrow> int \<Rightarrow> int \<Rightarrow> int" where
  "clamp lo x hi = min (max x lo) hi"

definition index_of :: "'x \<Rightarrow> 'x list \<Rightarrow> nat option" where
  "index_of x xs = (if x \<in> set xs then Some (length (takeWhile (\<lambda>y. y \<noteq> x) xs)) else None)"

definition gather_operand_index ::
  "nat list \<Rightarrow> int tensor \<Rightarrow> gather_dnums \<Rightarrow> nat list \<Rightarrow> nat list \<Rightarrow> int list" where
  "gather_operand_index oshape start_indices dn slice_sizes out_ix =
     (let r = length out_ix;
          batch_ix = map ((!) out_ix) (filter (\<lambda>i. int i \<notin> set (offset_dims dn)) [0..<r]);
          offset_ix = map ((!) out_ix) (filter (\<lambda>i. int i \<in> set (offset_dims dn)) [0..<r]);
          kept = filter (\<lambda>d. d \<notin> set (collapsed_slice_dims dn)) [0..<length oshape]
      in map (\<lambda>d.
           (case index_of d (start_index_map dn) of
              None \<Rightarrow> 0
            | Some k \<Rightarrow> clamp 0 (item start_indices (batch_ix @ [k]))
                          (int (oshape ! d) - int (slice_sizes ! d)))
         + (case index_of d kept of None \<Rightarrow> 0 | Some k \<Rightarrow> int (offset_ix ! k)))
         [0..<length oshape])"

definition gather_check :: "'a tensor \<Rightarrow> int tensor \<Rightarrow> gather_dnums \<Rightarrow> nat list \<Rightarrow> error option" where
  "gather_check operand start_indices dn slice_sizes =
     (if length (shape operand) \<noteq> length slice_sizes then
        Some (PrimitiveError ''slice_sizes must have rank equal to the gather operand'')
      else if shape start_indices = []
            \<or> last (shape start_indices) \<noteq> length (start_index_map dn) then
        Some (PrimitiveError ''gather: index vector size must match start_index_map'')
      else None)"

definition gather_out_shape :: "int tensor \<Rightarrow> gather_dnums \<Rightarrow> nat list \<Rightarrow> nat list option" where
  "gather_out_shape start_indices dn slice_sizes =
     (let result_rank = length (offset_dims dn) + ndim start_indices - 1;
          offset_shape = nths slice_sizes (- set (collapsed_slice_dims dn))
      in gather_shape (map int [0..<result_rank]) (offset_dims dn) offset_shape
           (butlast (shape start_indices)))"

definition gather ::
  "'a tensor \<Rightarrow> int tensor \<Rightarrow> gather_dnums \<Rightarrow> nat list \<Rightarrow> error + 'a tensor" where
  "gather operand start_indices dn slice_sizes =
     (case gather_check operand start_indices dn slice_sizes of
        Some e \<Rightarrow> Inl e
      | None \<Rightarrow>
          (case gather_out_shape start_indices dn slice_sizes of
             None \<Rightarrow> Inl (PrimitiveError ''gather: invalid dimension numbers'')
           | Some shp \<Rightarrow>
               let pos = map (gather_operand_index (shape operand) start_indices dn slice_sizes)
                             (indices shp)
               in if \<exists>p \<in> set pos. \<not> in_bounds (shape operand) p then Inl IndexError
                  else Inr \<lparr>shape = shp, dtype = dtype operand,
                            data = map (\<lambda>p. item operand (map nat p)) pos\<rparr>))"

section \<open>The module framework's parameter store\<close>

type_synonym 'a params = "string \<rightharpoonup> 'a tensor"

text \<open>
  Modelled from the spec: \<^verbatim>\<open>Module.param\<close> of \<^verbatim>\<open>flax/nn/base.py\<close> is not among the
  sources. The spec describes a call taking (name, shape, initializer) and returning a
  tensor, with lazy-create-or-fetch-by-name semantics: a parameter is created through its
  initializer at first use and looked up by name afterwards.
\<close>

definition param ::
  "'a params \<Rightarrow> 'r \<Rightarrow> string \<Rightarrow> 's \<Rightarrow> ('r \<Rightarrow> 's \<Rightarrow> error + 'a tensor) \<Rightarrow>
   (error + 'a tensor) \<times> 'a params" where
  "param st rng name shp init =
     (case st name of
        Some p \<Rightarrow> (Inr p, st)
      | None \<Rightarrow>
          (case init rng shp of
             Inl e \<Rightarrow> (Inl e, st)
           | Inr p \<Rightarrow> (Inr p, st(name \<mapsto> p))))"

section \<open>linear.py\<close>

definition normalize_axes :: "int list \<Rightarrow> int \<Rightarrow> int list" where
  "normalize_axes axes nd = map (\<lambda>ax. if ax \<ge> 0 then ax else nd + ax) axes"

subsection \<open>DenseGeneral\<close>

text \<open>The validation of \<^verbatim>\<open>batch_dims\<close> (lines 72 to 76).\<close>

definition check_batch_dims :: "int list \<Rightarrow> error option" where
  "check_batch_dims batch_dims =
     (if batch_dims \<noteq> [] then
        let max_dim = Max (set batch_dims)
        in if set batch_dims \<noteq> set [0..max_dim] then
             Some ValueError_batch_dims
           else None
      else None)"

text \<open>\<^verbatim>\<open>onp.prod(xs, dtype=onp.int32)\<close>: the product wraps around in 32 bits.\<close>

definition int32_prod :: "nat list \<Rightarrow> int" where
  "int32_prod xs = sint (word_of_nat (prod_list xs) :: 32 word)"

text \<open>The slice \<^verbatim>\<open>xs[-n:]\<close>; for \<open>n = 0\<close> Python reads \<^verbatim>\<open>xs[0:]\<close>, the whole tuple.\<close>

definition last_n :: "nat \<Rightarrow> 'x list \<Rightarrow> 'x list" where
  "last_n n xs = (if n = 0 then xs else drop (length xs - n) xs)"

text \<open>
  \<^verbatim>\<open>onp.prod(xs)\<close> without a dtype: the product of a non-empty tuple of sizes is an
  integer, that of the empty tuple is the float \<^verbatim>\<open>1.0\<close>, which is no dimension.
\<close>

definition flat_dim :: "nat list \<Rightarrow> nat option" where
  "flat_dim xs = (if xs = [] then None else Some (prod_list xs))"

definition kernel_flat_shape :: "nat \<Rightarrow> nat \<Rightarrow> nat \<Rightarrow> nat list \<Rightarrow> nat list option" where
  "kernel_flat_shape n_batch_dims n_axis n_features shp =
     (case flat_dim (take n_axis (drop n_batch_dims shp)) of
        None \<Rightarrow> None
      | Some a \<Rightarrow>
          (case flat_dim (last_n n_features shp) of None \<Rightarrow> None | Some f \<Rightarrow> Some [a, f]))"

definition bias_flat_shape :: "nat \<Rightarrow> nat list \<Rightarrow> nat list option" where
  "bias_flat_shape n_features shp =
     (case flat_dim (last_n n_features shp) of None \<Rightarrow> None | Some f \<Rightarrow> Some [f])"

text \<open>
  One call of an initializer with a flat shape: the initializers take integer dimensions
  and reject a flat shape that holds the float \<^verbatim>\<open>1.0\<close>.
\<close>

definition call_init ::
  "('r \<Rightarrow> nat list \<Rightarrow> dtype \<Rightarrow> 'a tensor) \<Rightarrow> 'r \<Rightarrow> nat list option \<Rightarrow> dtype \<Rightarrow>
   error + 'a tensor" where
  "call_init init rng flat_shape dt =
     (case flat_shape of
        None \<Rightarrow> Inl (PrimitiveError ''initializer: a dimension is not an integer'')
      | Some shp \<Rightarrow> Inr (init rng shp dt))"

definition kernel_init_wrap ::
  "'a framework \<Rightarrow> ('r \<Rightarrow> nat list \<Rightarrow> dtype \<Rightarrow> 'a tensor) \<Rightarrow> nat \<Rightarrow> nat \<Rightarrow> nat \<Rightarrow>
   'r \<Rightarrow> nat list \<Rightarrow> dtype \<Rightarrow> error + 'a tensor" where
  "kernel_init_wrap fw kernel_init n_batch_dims n_axis n_features rng shp dt =
     (let size_batch_dims = int32_prod (take n_batch_dims shp);
          flat_shape = kernel_flat_shape n_batch_dims n_axis n_features shp
      in case mapM (\<lambda>_. call_init kernel_init rng flat_shape dt) [0..<nat size_batch_dims] of
           Inl e \<Rightarrow> Inl e
         | Inr slices \<Rightarrow>
             (case concatenate fw slices of
                Inl e \<Rightarrow> Inl e
              | Inr kernel_c \<Rightarrow> reshape kernel_c shp))"

definition bias_init_wrap ::
  "'a framework \<Rightarrow> ('r \<Rightarrow> nat list \<Rightarrow> dtype \<Rightarrow> 'a tensor) \<Rightarrow> nat \<Rightarrow> nat \<Rightarrow>
   'r \<Rightarrow> nat list \<Rightarrow> dtype \<Rightarrow> error + 'a tensor" where
  "bias_init_wrap fw bias_init n_batch_dims n_features rng shp dt =
     (let size_batch_dims = int32_prod (take n_batch_dims shp);
          flat_shape = bias_flat_shape n_features shp
      in case mapM (\<lambda>_. call_init bias_init rng flat_shape dt) [0..<nat size_batch_dims] of
           Inl e \<Rightarrow> Inl e
         | Inr slices \<Rightarrow>
             (case concatenate fw slices of
                Inl e \<Rightarrow> Inl e
              | Inr bias_c \<Rightarrow> reshape bias_c shp))"

text \<open>The axes at which the bias gets a singleton axis (lines 113 and 114).\<close>

definition bias_expand_dims :: "nat \<Rightarrow> int list \<Rightarrow> int list \<Rightarrow> int list" where
  "bias_expand_dims nd axis batch_dims =
     sorted_list_of_set (set (map int [0..<nd]) - set axis - set batch_dims)"

definition DenseGeneral_apply ::
  "'a::semiring_0 framework \<Rightarrow> 'r \<Rightarrow> ('r \<Rightarrow> nat list \<Rightarrow> dtype \<Rightarrow> 'a tensor) \<Rightarrow>
   ('r \<Rightarrow> nat list \<Rightarrow> dtype \<Rightarrow> 'a tensor) \<Rightarrow> 'a tensor \<Rightarrow> nat scalar_or_tuple \<Rightarrow>
   int scalar_or_tuple \<Rightarrow> int scalar_or_tuple \<Rightarrow> bool \<Rightarrow> precision option \<Rightarrow>
   'a params \<Rightarrow> (error + 'a tensor) \<times> 'a params" where
  "DenseGeneral_apply fw rng kernel_init bias_init inputs features0 axis0 batch_dims0 bias prec st =
     (let features = as_tuple features0; axis = as_tuple axis0; batch_dims = as_tuple batch_dims0
      in case check_batch_dims batch_dims of
           Some e \<Rightarrow> (Inl e, st)
         | None \<Rightarrow>
      let nd = ndim inputs;
          n_batch_dims = length batch_dims;
          axis = normalize_axes axis (int nd);
          batch_dims = normalize_axes batch_dims (int nd);
          n_axis = length axis; n_features = length features
      in case mapM (shape_at inputs) batch_dims of
           Inl e \<Rightarrow> (Inl e, st)
         | Inr batch_shape \<Rightarrow>
      case mapM (shape_at inputs) axis of
           Inl e \<Rightarrow> (Inl e, st)
         | Inr axis_shape \<Rightarrow>
      let kernel_shape = axis_shape @ features
      in case param st rng ''kernel'' (batch_shape @ kernel_shape)
                (\<lambda>r s. kernel_init_wrap fw kernel_init n_batch_dims n_axis n_features r s float32) of
           (Inl e, st1) \<Rightarrow> (Inl e, st1)
         | (Inr kernel_p, st1) \<Rightarrow>
      let batch_ind = map int [0..<n_batch_dims];
          contract_ind = map int [n_batch_dims..<n_axis + n_batch_dims]
      in case dot_general inputs kernel_p ((axis, contract_ind), (batch_dims, batch_ind)) prec of
           Inl e \<Rightarrow> (Inl e, st1)
         | Inr out \<Rightarrow>
      if bias then
        case param st1 rng ''bias'' (batch_shape @ features)
               (\<lambda>r s. bias_init_wrap fw bias_init n_batch_dims n_features r s float32) of
          (Inl e, st2) \<Rightarrow> (Inl e, st2)
        | (Inr bias_p, st2) \<Rightarrow>
            (case foldM expand_dims bias_p (bias_expand_dims nd axis batch_dims) of
               Inl e \<Rightarrow> (Inl e, st2)
             | Inr bias_b \<Rightarrow> (add fw out bias_b, st2))
      else (Inr out, st1))"

subsection \<open>Dense\<close>

definition Dense_apply ::
  "'a::semiring_0 framework \<Rightarrow> 'r \<Rightarrow> ('r \<Rightarrow> nat list \<Rightarrow> dtype \<Rightarrow> 'a tensor) \<Rightarrow>
   ('r \<Rightarrow> nat list \<Rightarrow> dtype \<Rightarrow> 'a tensor) \<Rightarrow> 'a tensor \<Rightarrow> nat \<Rightarrow> bool \<Rightarrow> dtype \<Rightarrow>
   precision option \<Rightarrow> 'a params \<Rightarrow> (error + 'a tensor) \<times> 'a params" where
  "Dense_apply fw rng kernel_init bias_init inputs0 features bias dt prec st =
     (let inputs = asarray fw inputs0 dt
      in case shape_at inputs (- 1) of
           Inl e \<Rightarrow> (Inl e, st)
         | Inr in_features \<Rightarrow>
      case param st rng ''kernel'' [in_features, features]
             (\<lambda>r s. Inr (kernel_init r s float32)) of
           (Inl e, st1) \<Rightarrow> (Inl e, st1)
         | (Inr kernel0, st1) \<Rightarrow>
      let kernel = asarray fw kernel0 dt
      in case dot_general inputs kernel (([int (ndim inputs) - 1], [0]), ([], [])) prec of
           Inl e \<Rightarrow> (Inl e, st1)
         | Inr y \<Rightarrow>
      if bias then
        case param st1 rng ''bias'' [features] (\<lambda>r s. Inr (bias_init r s float32)) of
          (Inl e, st2) \<Rightarrow> (Inl e, st2)
        | (Inr bias_p, st2) \<Rightarrow> (add fw y bias_p, st2)
      else (Inr y, st1))"

subsection \<open>Conv\<close>

record conv_dimension_numbers =
  lhs_spec :: "int list"
  rhs_spec :: "int list"
  out_spec :: "int list"

definition conv_dimension_numbers_of :: "nat list \<Rightarrow> conv_dimension_numbers" where
  "conv_dimension_numbers_of input_shape =
     (let nd = int (length input_shape);
          lhs = [0, nd - 1] @ [1..nd - 2];
          rhs = [nd - 1, nd - 2] @ [0..nd - 3]
      in \<lparr>lhs_spec = lhs, rhs_spec = rhs, out_spec = lhs\<rparr>)"

datatype padding = SAME | VALID | Explicit "(int \<times> int) list"

text \<open>
  The arguments handed to \<^verbatim>\<open>lax.conv_general_dilated\<close>. The primitive itself is a
  parameter of \<open>Conv_apply\<close>: the layer only derives shapes and passes options through.
\<close>

record 'a conv_call =
  conv_lhs :: "'a tensor"
  conv_rhs :: "'a tensor"
  window_strides :: "nat list"
  conv_padding :: padding
  lhs_dilation :: "nat list option"
  rhs_dilation :: "nat list option"
  dimension_numbers :: conv_dimension_numbers
  feature_group_count :: int
  conv_precision :: "precision option"

text \<open>
  The group count is any Python integer, and \<^verbatim>\<open>%\<close> and \<^verbatim>\<open>//\<close> are the floor modulo
  and division (\<open>mod\<close> and \<open>div\<close> on \<open>int\<close>); a zero divisor raises. With a negative
  count the kernel shape handed to \<^verbatim>\<open>self.param\<close> has a negative entry, so the shapes
  and initializers of \<open>Conv\<close> are over \<open>int\<close>.
\<close>

definition Conv_apply ::
  "'a::plus framework \<Rightarrow> ('a conv_call \<Rightarrow> error + 'a tensor) \<Rightarrow> 'r \<Rightarrow>
   ('r \<Rightarrow> int list \<Rightarrow> dtype \<Rightarrow> 'a tensor) \<Rightarrow> ('r \<Rightarrow> int list \<Rightarrow> dtype \<Rightarrow> 'a tensor) \<Rightarrow>
   'a tensor \<Rightarrow> nat \<Rightarrow> nat list \<Rightarrow> nat list option \<Rightarrow> padding \<Rightarrow> nat list option \<Rightarrow>
   nat list option \<Rightarrow> int \<Rightarrow> bool \<Rightarrow> dtype \<Rightarrow> precision option \<Rightarrow> 'a params \<Rightarrow>
   (error + 'a tensor) \<times> 'a params" where
  "Conv_apply fw conv_general_dilated rng kernel_init bias_init inputs0 features kernel_size
     strides0 pad lhs_dil rhs_dil fgc bias dt prec st =
     (let inputs = asarray fw inputs0 dt;
          strides = (case strides0 of None \<Rightarrow> replicate (ndim inputs - 2) 1 | Some s \<Rightarrow> s)
      in case shape_at inputs (- 1) of
           Inl e \<Rightarrow> (Inl e, st)
         | Inr in_features \<Rightarrow>
      if fgc = 0 then (Inl ZeroDivisionError, st)
      else if int in_features mod fgc \<noteq> 0 then (Inl AssertionError, st)
      else
      let kernel_shape = map int kernel_size @ [int in_features div fgc, int features]
      in case param st rng ''kernel'' kernel_shape (\<lambda>r s. Inr (kernel_init r s float32)) of
           (Inl e, st1) \<Rightarrow> (Inl e, st1)
         | (Inr kernel0, st1) \<Rightarrow>
      let kernel = asarray fw kernel0 dt;
          dnums = conv_dimension_numbers_of (shape inputs)
      in case conv_general_dilated
                \<lparr>conv_lhs = inputs, conv_rhs = kernel, window_strides = strides,
                 conv_padding = pad, lhs_dilation = lhs_dil, rhs_dilation = rhs_dil,
                 dimension_numbers = dnums, feature_group_count = fgc,
                 conv_precision = prec\<rparr> of
           Inl e \<Rightarrow> (Inl e, st1)
         | Inr y \<Rightarrow>
      if bias then
        case param st1 rng ''bias'' [int features] (\<lambda>r s. Inr (bias_init r s float32)) of
          (Inl e, st2) \<Rightarrow> (Inl e, st2)
        | (Inr bias_p, st2) \<Rightarrow> (add fw y (asarray fw bias_p dt), st2)
      else (Inr y, st1))"

subsection \<open>Embed\<close>

definition Embed_apply ::
  "'r \<Rightarrow> ('r \<Rightarrow> nat list \<Rightarrow> dtype \<Rightarrow> 'a tensor) \<Rightarrow> int tensor \<Rightarrow> nat \<Rightarrow> nat \<Rightarrow> 'a params \<Rightarrow>
   (error + 'a tensor) \<times> 'a params" where
  "Embed_apply rng embedding_init inputs num_embeddings features st =
     (if dtype inputs \<notin> set [int32, int64, uint32, uint64] then
        (Inl ValueError_input_type, st)
      else
        case param st rng ''embedding'' [num_embeddings, features]
               (\<lambda>r s. Inr (embedding_init r s float32)) of
          (Inl e, st1) \<Rightarrow> (Inl e, st1)
        | (Inr embedding, st1) \<Rightarrow>
            let dims = \<lparr>offset_dims = [int (ndim inputs) - 1], collapsed_slice_dims = [0],
                        start_index_map = [0]\<rparr>
            in (gather embedding inputs dims [1, features], st1))"


section \<open>Concrete inputs\<close>

text \<open>
  An instance of the framework parameters for the concrete evaluations below, over the
  rationals: a conversion to an integer dtype truncates towards zero, any other conversion
  keeps the value; two different dtypes promote to \<open>float64\<close>.
\<close>

definition example_fw :: "rat framework" where
  "example_fw =
     \<lparr>cast = (\<lambda>src dst x.
         if dst \<in> set [int8, int16, int32, int64, uint8, uint16, uint32, uint64]
         then (if 0 \<le> x then of_int \<lfloor>x\<rfloor> else of_int \<lceil>x\<rceil>) else x),
      promote_types = (\<lambda>a b. if a = b then a else float64)\<rparr>"

text \<open>The initializers \<^verbatim>\<open>initializers.ones\<close> and \<^verbatim>\<open>initializers.zeros\<close>.\<close>

definition ones :: "unit \<Rightarrow> nat list \<Rightarrow> dtype \<Rightarrow> rat tensor" where
  "ones rng shp dt = \<lparr>shape = shp, dtype = dt, data = replicate (prod_list shp) 1\<rparr>"

definition zeros :: "unit \<Rightarrow> nat list \<Rightarrow> dtype \<Rightarrow> rat tensor" where
  "zeros rng shp dt = \<lparr>shape = shp, dtype = dt, data = replicate (prod_list shp) 0\<rparr>"

text \<open>The same initializers as \<open>Conv\<close> calls them, with a shape over \<open>int\<close>.\<close>

definition ones_int :: "unit \<Rightarrow> int list \<Rightarrow> dtype \<Rightarrow> rat tensor" where
  "ones_int rng shp dt = ones rng (map nat shp) dt"

definition zeros_int :: "unit \<Rightarrow> int list \<Rightarrow> dtype \<Rightarrow> rat tensor" where
  "zeros_int rng shp dt = zeros rng (map nat shp) dt"

text \<open>
  A stand-in for the convolution primitive in concrete evaluations: it only produces an
  array of the output shape of a stride-one \<^verbatim>\<open>SAME\<close> convolution.
\<close>

definition shape_only_conv :: "rat conv_call \<Rightarrow> error + rat tensor" where
  "shape_only_conv c =
     (let shp = butlast (shape (conv_lhs c)) @ [last (shape (conv_rhs c))]
      in Inr \<lparr>shape = shp, dtype = dtype (conv_lhs c), data = replicate (prod_list shp) 0\<rparr>)"

definition x23 :: "rat tensor" where
  "x23 = \<lparr>shape = [2, 3], dtype = float32, data = [1, 2, 3, 4, 5, 6]\<rparr>"

definition x145 :: "rat tensor" where
  "x145 = \<lparr>shape = [1, 4, 5], dtype = float32, data = replicate 20 1\<rparr>"

definition idx41 :: "int tensor" where
  "idx41 = \<lparr>shape = [4, 1], dtype = int32, data = [2, 0, 1, 2]\<rparr>"

definition table32 :: "rat tensor" where
  "table32 = \<lparr>shape = [3, 2], dtype = float32, data = [10, 11, 20, 21, 30, 31]\<rparr>"

definition kernel32 :: "rat tensor" where
  "kernel32 = \<lparr>shape = [3, 2], dtype = float32, data = [1, 0, 0, 1, 1, 1]\<rparr>"

definition bias2 :: "rat tensor" where
  "bias2 = \<lparr>shape = [2], dtype = float32, data = [10, 20]\<rparr>"



definition half3 :: "rat tensor" where
  "half3 = \<lparr>shape = [1], dtype = float32, data = [3 / 2]\<rparr>"

definition unit_kernel :: "rat tensor" where
  "unit_kernel = \<lparr>shape = [1, 1], dtype = float32, data = [1]\<rparr>"

definition bias3 :: "rat tensor" where
  "bias3 = \<lparr>shape = [3], dtype = float64, data = [1, 2, 3]\<rparr>"

definition conv_kernel :: "rat tensor" where
  "conv_kernel = \<lparr>shape = [1, 5, 3], dtype = float32, data = replicate 15 1\<rparr>"

section \<open>Errors of the primitives\<close>

lemma reshape_error: "reshape t s = Inl e \<Longrightarrow> \<exists>m. e = PrimitiveError m"
  by (auto simp: reshape_def split: if_splits)

lemma concatenate_error: "concatenate fw ts = Inl e \<Longrightarrow> \<exists>m. e = PrimitiveError m"
  by (auto simp: concatenate_def Let_def split: if_splits)

lemma call_init_error:
  "call_init init r fs d = Inl e \<Longrightarrow> \<exists>m. e = PrimitiveError m"
  by (auto simp: call_init_def split: option.splits)

lemma mapM_error: "mapM f xs = Inl e \<Longrightarrow> \<exists>x \<in> set xs. f x = Inl e"
proof (induction xs)
  case Nil
  then show ?case by simp
next
  case (Cons a xs)
  then show ?case
    by (cases "f a"; cases "mapM f xs") auto
qed

lemma kernel_init_wrap_error:
  "kernel_init_wrap fw ki nb na nf r s d = Inl e \<Longrightarrow> \<exists>m. e = PrimitiveError m"
  unfolding kernel_init_wrap_def Let_def
  by (auto split: sum.splits dest: reshape_error concatenate_error call_init_error
      dest!: mapM_error)

lemma bias_init_wrap_error:
  "bias_init_wrap fw bi nb nf r s d = Inl e \<Longrightarrow> \<exists>m. e = PrimitiveError m"
  unfolding bias_init_wrap_def Let_def
  by (auto split: sum.splits dest: reshape_error concatenate_error call_init_error
      dest!: mapM_error)

lemma dot_general_error: "dot_general a b dn p = Inl e \<Longrightarrow> \<exists>m. e = PrimitiveError m"
  by (auto simp: dot_general_def dot_general_check_def Let_def
           split: prod.splits option.splits if_splits)

lemma add_error: "add fw a b = Inl e \<Longrightarrow> \<exists>m. e = PrimitiveError m"
  by (cases "broadcast_shapes (shape a) (shape b)")
     (auto simp: add_def broadcast_shapes_def Let_def split: if_splits)

lemma expand_dims_error: "expand_dims t ax = Inl e \<Longrightarrow> \<exists>m. e = PrimitiveError m"
  by (auto simp: expand_dims_def Let_def split: if_splits)

lemma foldM_expand_dims_error:
  "foldM expand_dims t axs = Inl e \<Longrightarrow> \<exists>m. e = PrimitiveError m"
proof (induction axs arbitrary: t)
  case Nil
  then show ?case by simp
next
  case (Cons a axs)
  then show ?case
    by (cases "expand_dims t a") (auto dest: expand_dims_error)
qed

lemma gather_error:
  "gather operand ix dn ss = Inl e \<Longrightarrow> e = IndexError \<or> (\<exists>m. e = PrimitiveError m)"
  by (auto simp: gather_def gather_check_def Let_def split: option.splits if_splits)

lemma shape_at_error: "shape_at t ax = Inl e \<Longrightarrow> e = IndexError"
  by (auto simp: shape_at_def Let_def split: if_splits)

lemma mapM_shape_at_error: "mapM (shape_at t) axs = Inl e \<Longrightarrow> e = IndexError"
proof (induction axs)
  case Nil
  then show ?case by simp
next
  case (Cons a axs)
  then show ?case
    by (cases "shape_at t a"; cases "mapM (shape_at t) axs") (auto dest: shape_at_error)
qed

lemma param_error:
  assumes "param st rng name shp init = (Inl e, st')"
  shows "init rng shp = Inl e \<and> st' = st \<and> st name = None"
  using assms by (auto simp: param_def split: option.splits sum.splits)

lemma param_total:
  "\<exists>p st'. param st rng name shp (\<lambda>r s. Inr (f r s)) = (Inr p, st')"
  by (auto simp: param_def split: option.splits)

lemma param_lookup: "st name = Some p \<Longrightarrow> param st rng name shp init = (Inr p, st)"
  by (simp add: param_def)

section \<open>DenseGeneral: validation of the batch axes\<close>

lemma check_batch_dims_iff:
  "check_batch_dims bd =
     (if bd \<noteq> [] \<and> set bd \<noteq> {0..Max (set bd)} then Some ValueError_batch_dims else None)"
  by (simp add: check_batch_dims_def Let_def)

lemma DenseGeneral_rejects:
  assumes "check_batch_dims (as_tuple batch_dims) = Some e"
  shows "DenseGeneral_apply fw rng ki bi inputs features axis batch_dims bias prec st = (Inl e, st)"
  using assms by (simp add: DenseGeneral_apply_def Let_def)

lemma DenseGeneral_error_cases:
  assumes "fst (DenseGeneral_apply fw rng ki bi inputs features axis batch_dims bias prec st) = Inl e"
  shows "check_batch_dims (as_tuple batch_dims) = Some e \<or> e = IndexError \<or> (\<exists>m. e = PrimitiveError m)"
proof (cases "check_batch_dims (as_tuple batch_dims)")
  case (Some e')
  then show ?thesis
    using assms DenseGeneral_rejects[OF Some, of fw rng ki bi inputs features axis bias prec st]
    by simp
next
  case None
  define nd where "nd = ndim inputs"
  define ax where "ax = normalize_axes (as_tuple axis) (int nd)"
  define bd where "bd = normalize_axes (as_tuple batch_dims) (int nd)"
  define nb where "nb = length (as_tuple batch_dims)"
  define nf where "nf = length (as_tuple features)"
  define dn where "dn = ((ax, map int [nb..<length ax + nb]), (bd, map int [0..<nb]))"
  note defs = DenseGeneral_apply_def Let_def nd_def[symmetric] ax_def[symmetric]
    bd_def[symmetric] nb_def[symmetric] nf_def[symmetric] dn_def[symmetric]
  show ?thesis
  proof (cases "mapM (shape_at inputs) bd")
    case (Inl e')
    then show ?thesis using assms None mapM_shape_at_error[OF Inl] by (simp add: defs)
  next
    case bs: (Inr batch_shape)
    show ?thesis
    proof (cases "mapM (shape_at inputs) ax")
      case (Inl e')
      then show ?thesis using assms None bs mapM_shape_at_error[OF Inl] by (simp add: defs)
    next
      case as: (Inr axis_shape)
      obtain rk st1 where pk:
        "param st rng ''kernel'' (batch_shape @ axis_shape @ as_tuple features)
           (\<lambda>r s. kernel_init_wrap fw ki nb (length ax) nf r s float32) = (rk, st1)"
        by force
      show ?thesis
      proof (cases rk)
        case (Inl e')
        with pk have "kernel_init_wrap fw ki nb (length ax) nf rng
            (batch_shape @ axis_shape @ as_tuple features) float32 = Inl e'"
          using param_error by fastforce
        then have "\<exists>m. e' = PrimitiveError m" by (rule kernel_init_wrap_error)
        then show ?thesis using assms None bs as pk Inl by (simp add: defs)
      next
        case k: (Inr kernel_p)
        show ?thesis
        proof (cases "dot_general inputs kernel_p dn prec")
          case (Inl e')
          then show ?thesis
            using assms None bs as pk k dot_general_error[OF Inl] by (simp add: defs)
        next
          case out: (Inr out)
          show ?thesis
          proof (cases bias)
            case False
            then show ?thesis using assms None bs as pk k out by (simp add: defs)
          next
            case True
            obtain rb st2 where pb:
              "param st1 rng ''bias'' (batch_shape @ as_tuple features)
                 (\<lambda>r s. bias_init_wrap fw bi nb nf r s float32) = (rb, st2)"
              by force
            show ?thesis
            proof (cases rb)
              case (Inl e')
              with pb have "bias_init_wrap fw bi nb nf rng
                  (batch_shape @ as_tuple features) float32 = Inl e'"
                using param_error by fastforce
              then have "\<exists>m. e' = PrimitiveError m" by (rule bias_init_wrap_error)
              then show ?thesis using assms None bs as pk k out True pb Inl by (simp add: defs)
            next
              case b: (Inr bias_p)
              show ?thesis
              proof (cases "foldM expand_dims bias_p (bias_expand_dims nd ax bd)")
                case (Inl e')
                then show ?thesis
                  using assms None bs as pk k out True pb b foldM_expand_dims_error[OF Inl]
                  by (simp add: defs)
              next
                case (Inr bias_b)
                then show ?thesis
                  using assms None bs as pk k out True pb b add_error[of fw out bias_b e]
                  by (simp add: defs)
              qed
            qed
          qed
        qed
      qed
    qed
  qed
qed

text \<open>
  C2. A non-empty \<open>batch_dims\<close> whose elements are not exactly the set
  \<open>{0, ..., max batch_dims}\<close> makes \<open>DenseGeneral\<close> fail with the \<^verbatim>\<open>ValueError\<close> of
  line 75, whatever the other arguments are, and leaves the parameter store as it was: no
  parameter has been created and no primitive has run. An empty \<open>batch_dims\<close>, or one that
  is exactly that set, passes the validation: the call never ends in that error.
\<close>

theorem DenseGeneral_batch_dims_validation:
  "(as_tuple batch_dims \<noteq> [] \<and>
      set (as_tuple batch_dims) \<noteq> {0..Max (set (as_tuple batch_dims))} \<longrightarrow>
      DenseGeneral_apply fw rng ki bi inputs features axis batch_dims bias prec st
        = (Inl ValueError_batch_dims, st))
   \<and> (as_tuple batch_dims = [] \<or>
      set (as_tuple batch_dims) = {0..Max (set (as_tuple batch_dims))} \<longrightarrow>
      check_batch_dims (as_tuple batch_dims) = None \<and>
      fst (DenseGeneral_apply fw rng ki bi inputs features axis batch_dims bias prec st)
        \<noteq> Inl ValueError_batch_dims)"
proof (intro conjI impI)
  assume "as_tuple batch_dims \<noteq> [] \<and>
      set (as_tuple batch_dims) \<noteq> {0..Max (set (as_tuple batch_dims))}"
  then have "check_batch_dims (as_tuple batch_dims) = Some ValueError_batch_dims"
    by (simp add: check_batch_dims_iff)
  then show "DenseGeneral_apply fw rng ki bi inputs features axis batch_dims bias prec st
        = (Inl ValueError_batch_dims, st)"
    by (rule DenseGeneral_rejects)
next
  assume ok: "as_tuple batch_dims = [] \<or>
      set (as_tuple batch_dims) = {0..Max (set (as_tuple batch_dims))}"
  then show none: "check_batch_dims (as_tuple batch_dims) = None"
    by (auto simp: check_batch_dims_iff)
  show "fst (DenseGeneral_apply fw rng ki bi inputs features axis batch_dims bias prec st)
        \<noteq> Inl ValueError_batch_dims"
  proof
    assume "fst (DenseGeneral_apply fw rng ki bi inputs features axis batch_dims bias prec st)
        = Inl ValueError_batch_dims"
    from DenseGeneral_error_cases[OF this] none show False by simp
  qed
qed

theorem DenseGeneral_batch_dims_validation_witness:
  "DenseGeneral_apply example_fw () ones zeros x23 (Scalar 2) (Scalar (- 1)) (Tuple [0, 2])
       True None Map.empty = (Inl ValueError_batch_dims, Map.empty)
   \<and> fst (DenseGeneral_apply example_fw () ones zeros x23 (Scalar 2) (Scalar (- 1)) (Tuple [0])
       True None Map.empty) \<noteq> Inl ValueError_batch_dims"
proof -
  have m: "Max (set [0, 2 :: int]) = 2" by simp
  have "(1::int) \<in> {0..2}" by simp
  moreover have "(1::int) \<notin> set [0, 2]" by simp
  ultimately have bad: "set [0, 2 :: int] \<noteq> {0..2}" by metis
  have good: "set [0 :: int] = {0..Max (set [0])}" by simp
  show ?thesis
    using DenseGeneral_batch_dims_validation[of "Tuple [0, 2]" example_fw "()" ones zeros x23
        "Scalar 2" "Scalar (- 1)" True None Map.empty]
      DenseGeneral_batch_dims_validation[of "Tuple [0]" example_fw "()" ones zeros x23
        "Scalar 2" "Scalar (- 1)" True None Map.empty]
      bad good m
    by simp
qed

section \<open>Embed: the dtype check\<close>

text \<open>
  C4. \<open>Embed\<close> called on an input whose dtype is not one of \<open>int32\<close>, \<open>int64\<close>,
  \<open>uint32\<close>, \<open>uint64\<close> fails at once with the error of line 268 ("Input type must be
  an integer or unsigned integer.", a \<^verbatim>\<open>ValueError\<close> in Python) and leaves the
  parameter store as it was; with one of these four dtypes the call never ends in that error.
\<close>

theorem Embed_dtype_check:
  "(dtype inputs \<notin> {int32, int64, uint32, uint64} \<longrightarrow>
      Embed_apply rng embedding_init inputs num_embeddings features st
        = (Inl ValueError_input_type, st))
   \<and> (dtype inputs \<in> {int32, int64, uint32, uint64} \<longrightarrow>
      fst (Embed_apply rng embedding_init inputs num_embeddings features st)
        \<noteq> Inl ValueError_input_type)"
proof (intro conjI impI)
  assume "dtype inputs \<notin> {int32, int64, uint32, uint64}"
  then show "Embed_apply rng embedding_init inputs num_embeddings features st
        = (Inl ValueError_input_type, st)"
    by (simp add: Embed_apply_def)
next
  assume ok: "dtype inputs \<in> {int32, int64, uint32, uint64}"
  obtain p st1 where p: "param st rng ''embedding'' [num_embeddings, features]
      (\<lambda>r s. Inr (embedding_init r s float32)) = (Inr p, st1)"
    using param_total[where f = "\<lambda>r s. embedding_init r s float32"] by blast
  show "fst (Embed_apply rng embedding_init inputs num_embeddings features st)
        \<noteq> Inl ValueError_input_type"
    using ok p gather_error[of p inputs _ "[1, features]" ValueError_input_type]
    by (auto simp: Embed_apply_def Let_def)
qed

theorem Embed_dtype_check_witness:
  "Embed_apply () ones (idx41\<lparr>dtype := float32\<rparr>) 3 2 Map.empty
     = (Inl ValueError_input_type, Map.empty)
   \<and> fst (Embed_apply () ones idx41 3 2 Map.empty) \<noteq> Inl ValueError_input_type"
  using Embed_dtype_check[of "idx41\<lparr>dtype := float32\<rparr>" "()" ones 3 2 Map.empty]
    Embed_dtype_check[of idx41 "()" ones 3 2 Map.empty]
  by (simp add: idx41_def)

section \<open>Conv: the feature group count\<close>

lemma shape_asarray [simp]: "shape (asarray fw t dt) = shape t"
  by (simp add: asarray_def)

lemma ndim_asarray [simp]: "ndim (asarray fw t dt) = ndim t"
  by (simp add: ndim_def)

lemma dtype_asarray [simp]: "dtype (asarray fw t dt) = dt"
  by (simp add: asarray_def)

lemma asarray_same: "dtype t = dt \<Longrightarrow> asarray fw t dt = t"
  by (simp add: asarray_def)

lemma shape_at_last: "shape t \<noteq> [] \<Longrightarrow> shape_at t (- 1) = Inr (last (shape t))"
  by (cases "shape t" rule: rev_cases) (simp_all add: shape_at_def ndim_def Let_def nat_diff_distrib' last_conv_nth)

lemma shape_at_last_empty: "shape t = [] \<Longrightarrow> shape_at t (- 1) = Inl IndexError"
  by (simp add: shape_at_def ndim_def)

text \<open>
  C5. Let the input have at least one axis and \<open>n\<close> channels (the size of its last axis).
  When \<open>n\<close> is not evenly divisible by \<open>feature_group_count\<close>, the call fails at the
  assertion of line 218 and leaves the store as it was: with an \<^verbatim>\<open>AssertionError\<close>, or,
  for the group count zero (which divides nothing), with the \<^verbatim>\<open>ZeroDivisionError\<close> that
  the modulo inside the assertion raises. When \<open>n\<close> is divisible by a non-zero group count,
  the assertion passes and the convolution proceeds, whatever the bias flag and the store
  are: the kernel parameter of shape \<open>kernel_size @ [n div count, features]\<close> is fetched or
  created, the primitive is called on the cast input and the cast kernel with the options
  of the call, and its error, or its output (plus the cast bias when the bias is enabled),
  is the result. The call then ends in an \<^verbatim>\<open>AssertionError\<close> only if the primitive
  itself returns one.
\<close>

theorem Conv_feature_group_check:
  assumes "shape inputs \<noteq> []"
  shows
    "(fgc = 0 \<or> \<not> fgc dvd int (last (shape inputs)) \<longrightarrow>
        Conv_apply fw conv rng ki bi inputs features ks strides pad ld rd fgc bias dt prec st
          = (Inl (if fgc = 0 then ZeroDivisionError else AssertionError), st))
     \<and> (fgc \<noteq> 0 \<and> fgc dvd int (last (shape inputs)) \<longrightarrow>
        (\<exists>kernel_p st1 bias_p st2.
            param st rng ''kernel''
              (map int ks @ [int (last (shape inputs)) div fgc, int features])
              (\<lambda>r s. Inr (ki r s float32)) = (Inr kernel_p, st1)
          \<and> param st1 rng ''bias'' [int features] (\<lambda>r s. Inr (bi r s float32))
              = (Inr bias_p, st2)
          \<and> Conv_apply fw conv rng ki bi inputs features ks strides pad ld rd fgc bias dt prec st
              = (case conv \<lparr>conv_lhs = asarray fw inputs dt, conv_rhs = asarray fw kernel_p dt,
                    window_strides =
                      (case strides of None \<Rightarrow> replicate (ndim inputs - 2) 1 | Some s \<Rightarrow> s),
                    conv_padding = pad, lhs_dilation = ld, rhs_dilation = rd,
                    dimension_numbers = conv_dimension_numbers_of (shape inputs),
                    feature_group_count = fgc, conv_precision = prec\<rparr> of
                   Inl e \<Rightarrow> (Inl e, st1)
                 | Inr y \<Rightarrow>
                     if bias then (add fw y (asarray fw bias_p dt), st2) else (Inr y, st1))))
     \<and> (fgc \<noteq> 0 \<and> fgc dvd int (last (shape inputs)) \<longrightarrow>
        (\<forall>c. conv c \<noteq> Inl AssertionError) \<longrightarrow>
        fst (Conv_apply fw conv rng ki bi inputs features ks strides pad ld rd fgc bias dt prec st)
          \<noteq> Inl AssertionError)"
proof -
  have sa: "shape_at (asarray fw inputs dt) (- 1) = Inr (last (shape inputs))"
    using assms shape_at_last[of "asarray fw inputs dt"] by simp
  note defs = Conv_apply_def Let_def sa
  let ?n = "int (last (shape inputs))"
  let ?call = "\<lambda>kernel_p. \<lparr>conv_lhs = asarray fw inputs dt, conv_rhs = asarray fw kernel_p dt,
        window_strides = (case strides of None \<Rightarrow> replicate (ndim inputs - 2) 1 | Some s \<Rightarrow> s),
        conv_padding = pad, lhs_dilation = ld, rhs_dilation = rd,
        dimension_numbers = conv_dimension_numbers_of (shape inputs),
        feature_group_count = fgc, conv_precision = prec\<rparr>"
  have proceeds: "\<exists>kernel_p st1 bias_p st2.
            param st rng ''kernel'' (map int ks @ [?n div fgc, int features])
              (\<lambda>r s. Inr (ki r s float32)) = (Inr kernel_p, st1)
          \<and> param st1 rng ''bias'' [int features] (\<lambda>r s. Inr (bi r s float32))
              = (Inr bias_p, st2)
          \<and> Conv_apply fw conv rng ki bi inputs features ks strides pad ld rd fgc bias dt prec st
              = (case conv (?call kernel_p) of
                   Inl e \<Rightarrow> (Inl e, st1)
                 | Inr y \<Rightarrow>
                     if bias then (add fw y (asarray fw bias_p dt), st2) else (Inr y, st1))"
    if d: "fgc \<noteq> 0 \<and> fgc dvd ?n"
  proof -
    from d have nz: "fgc \<noteq> 0" and m: "?n mod fgc = 0" by (simp_all add: dvd_eq_mod_eq_0)
    obtain kp st1 where pk: "param st rng ''kernel'' (map int ks @ [?n div fgc, int features])
        (\<lambda>r s. Inr (ki r s float32)) = (Inr kp, st1)"
      using param_total[where f = "\<lambda>r s. ki r s float32"] by blast
    obtain bp st2 where pb: "param st1 rng ''bias'' [int features]
        (\<lambda>r s. Inr (bi r s float32)) = (Inr bp, st2)"
      using param_total[where f = "\<lambda>r s. bi r s float32"] by blast
    have "Conv_apply fw conv rng ki bi inputs features ks strides pad ld rd fgc bias dt prec st
              = (case conv (?call kp) of
                   Inl e \<Rightarrow> (Inl e, st1)
                 | Inr y \<Rightarrow>
                     if bias then (add fw y (asarray fw bp dt), st2) else (Inr y, st1))"
      using nz m pk pb
      by (cases "conv (?call kp)") (simp_all add: defs cong: option.case_cong)
    with pk pb show ?thesis by blast
  qed
  show ?thesis
  proof (intro conjI impI)
    assume f: "fgc = 0 \<or> \<not> fgc dvd ?n"
    show "Conv_apply fw conv rng ki bi inputs features ks strides pad ld rd fgc bias dt prec st
          = (Inl (if fgc = 0 then ZeroDivisionError else AssertionError), st)"
    proof (cases "fgc = 0")
      case True
      then show ?thesis by (simp add: defs)
    next
      case False
      with f have "?n mod fgc \<noteq> 0" by (simp add: dvd_eq_mod_eq_0)
      with False show ?thesis by (simp add: defs)
    qed
  next
    assume "fgc \<noteq> 0 \<and> fgc dvd ?n"
    then show "\<exists>kernel_p st1 bias_p st2.
            param st rng ''kernel'' (map int ks @ [?n div fgc, int features])
              (\<lambda>r s. Inr (ki r s float32)) = (Inr kernel_p, st1)
          \<and> param st1 rng ''bias'' [int features] (\<lambda>r s. Inr (bi r s float32))
              = (Inr bias_p, st2)
          \<and> Conv_apply fw conv rng ki bi inputs features ks strides pad ld rd fgc bias dt prec st
              = (case conv (?call kernel_p) of
                   Inl e \<Rightarrow> (Inl e, st1)
                 | Inr y \<Rightarrow>
                     if bias then (add fw y (asarray fw bias_p dt), st2) else (Inr y, st1))"
      by (rule proceeds)
  next
    assume d: "fgc \<noteq> 0 \<and> fgc dvd ?n" and c: "\<forall>c. conv c \<noteq> Inl AssertionError"
    from proceeds[OF d] obtain kp st1 bp st2 where
      eq: "Conv_apply fw conv rng ki bi inputs features ks strides pad ld rd fgc bias dt prec st
              = (case conv (?call kp) of
                   Inl e \<Rightarrow> (Inl e, st1)
                 | Inr y \<Rightarrow>
                     if bias then (add fw y (asarray fw bp dt), st2) else (Inr y, st1))"
      by blast
    show "fst (Conv_apply fw conv rng ki bi inputs features ks strides pad ld rd fgc bias dt prec st)
          \<noteq> Inl AssertionError"
    proof (cases "conv (?call kp)")
      case (Inl e)
      then have "e \<noteq> AssertionError" using c by metis
      then show ?thesis by (simp add: eq Inl)
    next
      case (Inr y)
      have "add fw y (asarray fw bp dt) \<noteq> Inl AssertionError"
        using add_error[of fw y "asarray fw bp dt" AssertionError] by auto
      then show ?thesis by (simp add: eq Inr)
    qed
  qed
qed

theorem Conv_feature_group_check_witness:
  "Conv_apply example_fw shape_only_conv () ones_int zeros_int x145 3 [1] None SAME None None 2
       True float32 None Map.empty = (Inl AssertionError, Map.empty)
   \<and> Conv_apply example_fw shape_only_conv () ones_int zeros_int x145 3 [1] None SAME None None 0
       True float32 None Map.empty = (Inl ZeroDivisionError, Map.empty)
   \<and> fst (Conv_apply example_fw shape_only_conv () ones_int zeros_int x145 3 [1] None SAME None
       None 5 True float32 None Map.empty) \<noteq> Inl AssertionError
   \<and> fst (Conv_apply example_fw shape_only_conv () ones_int zeros_int x145 3 [1] None SAME None
       None 5 True float32 None Map.empty)
       = Inr \<lparr>shape = [1, 4, 3], dtype = float32, data = replicate 12 0\<rparr>"
proof -
  have s: "shape x145 \<noteq> []" and l: "last (shape x145) = 5" by (simp_all add: x145_def)
  have c: "\<forall>c. shape_only_conv c \<noteq> Inl AssertionError"
    by (simp add: shape_only_conv_def Let_def)
  have n2: "\<not> (2::int) dvd 5" by simp
  have v: "fst (Conv_apply example_fw shape_only_conv () ones_int zeros_int x145 3 [1] None SAME
       None None 5 True float32 None Map.empty)
       = Inr \<lparr>shape = [1, 4, 3], dtype = float32, data = replicate 12 0\<rparr>"
    by code_simp
  show ?thesis
    using Conv_feature_group_check[OF s, where fgc = 2 and fw = example_fw
        and conv = shape_only_conv and rng = "()" and ki = ones_int and bi = zeros_int
        and features = 3 and ks = "[1]" and strides = None and pad = SAME and ld = None
        and rd = None and bias = True and dt = float32 and prec = None and st = Map.empty]
      Conv_feature_group_check[OF s, where fgc = 0 and fw = example_fw
        and conv = shape_only_conv and rng = "()" and ki = ones_int and bi = zeros_int
        and features = 3 and ks = "[1]" and strides = None and pad = SAME and ld = None
        and rd = None and bias = True and dt = float32 and prec = None and st = Map.empty]
      Conv_feature_group_check[OF s, where fgc = 5 and fw = example_fw
        and conv = shape_only_conv and rng = "()" and ki = ones_int and bi = zeros_int
        and features = 3 and ks = "[1]" and strides = None and pad = SAME and ld = None
        and rd = None and bias = True and dt = float32 and prec = None and st = Map.empty]
      c n2 l v
    by simp
qed

section \<open>DenseGeneral: negative axes\<close>


lemma length_normalize_axes [simp]: "length (normalize_axes axes nd) = length axes"
  by (simp add: normalize_axes_def)











section \<open>DenseGeneral: the kernel initializer\<close>

text \<open>
  With contracted axes and features present, a batch of at least one and fewer than
  \<open>2 ^ 31\<close> slices, and an initializer that returns an array of the flat shape it is asked
  for, the wrapper of lines 84 to 90 returns the slices of the initializer, one for every
  flattened batch index, concatenated and reshaped to the kernel shape.
\<close>

lemma kernel_flat_shape_features:
  assumes "axis_shape \<noteq> []" and "features \<noteq> []"
  shows "kernel_flat_shape (length batch_shape) (length axis_shape) (length features)
           (batch_shape @ axis_shape @ features)
       = Some [prod_list axis_shape, prod_list features]"
  using assms by (simp add: kernel_flat_shape_def flat_dim_def last_n_def)

lemma kernel_flat_shape_no_features:
  assumes "axis_shape \<noteq> []"
  shows "kernel_flat_shape (length batch_shape) (length axis_shape) 0 (batch_shape @ axis_shape)
       = Some [prod_list axis_shape, prod_list (batch_shape @ axis_shape)]"
  using assms by (simp add: kernel_flat_shape_def flat_dim_def last_n_def)

lemma int32_prod_small:
  assumes "prod_list xs < 2 ^ 31"
  shows "int32_prod xs = int (prod_list xs)"
proof -
  have "int32_prod xs = signed_take_bit 31 (int (prod_list xs))"
    by (simp add: int32_prod_def signed_of_nat)
  also have "\<dots> = int (prod_list xs)"
    using assms by (intro signed_take_bit_int_eq_self) simp_all
  finally show ?thesis .
qed

lemma mapM_const: "mapM (\<lambda>_. Inr c) xs = Inr (replicate (length xs) c)"
  by (induction xs) simp_all

lemma concat_replicate_length: "length (concat (replicate n xs)) = n * length xs"
  by (induction n) simp_all

lemma concatenate_replicate:
  assumes "0 < n" and "shape k0 = [a, f]"
  shows "concatenate fw (replicate n k0)
       = Inr \<lparr>shape = [n * a, f], dtype = dtype k0, data = concat (replicate n (data k0))\<rparr>"
proof -
  from assms(1) obtain m where n: "n = Suc m" by (cases n) auto
  have "result_type fw (map dtype (replicate n k0)) = dtype k0"
    by (simp add: result_type_def n list_all_iff)
  moreover have "sum_list (map (\<lambda>t. hd (shape t)) (replicate n k0)) = n * a"
    by (simp add: assms(2) sum_list_replicate)
  moreover have "map (\<lambda>t. data (asarray fw t (dtype k0))) (replicate n k0) = replicate n (data k0)"
    by (simp add: asarray_same)
  ultimately show ?thesis
    using assms by (simp add: concatenate_def Let_def list_ex_iff n)
qed

lemma kernel_init_wrap_slices:
  assumes "axis_shape \<noteq> []" and "features \<noteq> []"
    and "0 < prod_list batch_shape" and "prod_list batch_shape < 2 ^ 31"
    and "shape (ki rng [prod_list axis_shape, prod_list features] dt)
           = [prod_list axis_shape, prod_list features]"
    and "wf_tensor (ki rng [prod_list axis_shape, prod_list features] dt)"
  shows "kernel_init_wrap fw ki (length batch_shape) (length axis_shape) (length features) rng
           (batch_shape @ axis_shape @ features) dt
       = Inr \<lparr>shape = batch_shape @ axis_shape @ features,
              dtype = dtype (ki rng [prod_list axis_shape, prod_list features] dt),
              data = concat (replicate (prod_list batch_shape)
                       (data (ki rng [prod_list axis_shape, prod_list features] dt)))\<rparr>"
proof -
  define k0 where "k0 = ki rng [prod_list axis_shape, prod_list features] dt"
  have l: "length (data k0) = prod_list axis_shape * prod_list features"
    using assms(5,6) by (simp add: wf_tensor_def k0_def)
  have c: "concatenate fw (replicate (prod_list batch_shape) k0)
      = Inr \<lparr>shape = [prod_list batch_shape * prod_list axis_shape, prod_list features],
             dtype = dtype k0, data = concat (replicate (prod_list batch_shape) (data k0))\<rparr>"
    using assms(3,5) by (intro concatenate_replicate) (simp_all add: k0_def)
  show ?thesis
    unfolding k0_def[symmetric]
    by (simp add: kernel_init_wrap_def Let_def int32_prod_small[OF assms(4)]
        kernel_flat_shape_features[OF assms(1,2)] call_init_def k0_def[symmetric] mapM_const c
        reshape_def concat_replicate_length l)
qed

text \<open>
  C6 at \<open>features = ()\<close>. On an input of shape \<open>(2, 3)\<close> with \<open>axis = -1\<close> and no batch
  axes the kernel shape is \<open>(3)\<close>, and the flat shape the claim gives is \<open>(3, 1)\<close>. The
  slice \<^verbatim>\<open>shape[-n_features:]\<close> of line 87 is the whole shape when \<open>n_features\<close> is zero:
  the initializer is called with the flat shape \<open>(3, 3)\<close>, its nine elements cannot be
  reshaped to \<open>(3)\<close>, the call fails and no kernel is created. With \<open>features = 1\<close> the
  wrapper does what the claim says.
\<close>

theorem DenseGeneral_kernel_empty_features:
  "kernel_flat_shape 0 1 0 [3] = Some [3, 3]
   \<and> fst (DenseGeneral_apply example_fw () ones zeros x23 (Tuple []) (Scalar (- 1)) (Tuple [])
            False None Map.empty)
       = Inl (PrimitiveError ''cannot reshape array'')
   \<and> snd (DenseGeneral_apply example_fw () ones zeros x23 (Tuple []) (Scalar (- 1)) (Tuple [])
            False None Map.empty) ''kernel'' = None
   \<and> kernel_flat_shape 0 1 1 [3, 1] = Some [3, 1]
   \<and> snd (DenseGeneral_apply example_fw () ones zeros x23 (Scalar 1) (Scalar (- 1)) (Tuple [])
            False None Map.empty) ''kernel''
       = Some \<lparr>shape = [3, 1], dtype = float32, data = [1, 1, 1]\<rparr>"
proof (intro conjI)
  show "kernel_flat_shape 0 1 0 [3] = Some [3, 3]" by code_simp
  show "fst (DenseGeneral_apply example_fw () ones zeros x23 (Tuple []) (Scalar (- 1)) (Tuple [])
            False None Map.empty)
       = Inl (PrimitiveError ''cannot reshape array'')"
    by code_simp
  show "snd (DenseGeneral_apply example_fw () ones zeros x23 (Tuple []) (Scalar (- 1)) (Tuple [])
            False None Map.empty) ''kernel'' = None"
    by code_simp
  show "kernel_flat_shape 0 1 1 [3, 1] = Some [3, 1]" by code_simp
  show "snd (DenseGeneral_apply example_fw () ones zeros x23 (Scalar 1) (Scalar (- 1)) (Tuple [])
            False None Map.empty) ''kernel''
       = Some \<lparr>shape = [3, 1], dtype = float32, data = [1, 1, 1]\<rparr>"
    by code_simp
qed


section \<open>Multi-indices in row-major order\<close>

lemma indices_Nil [simp]: "indices [] = [[]]"
  by (simp add: indices_def)

lemma indices_Cons:
  "indices (n # ns) = concat (map (\<lambda>i. map ((#) i) (indices ns)) [0..<n])"
  by (simp add: indices_def)

lemma length_indices [simp]: "length (indices shp) = prod_list shp"
  by (induction shp) (simp_all add: indices_Cons length_concat o_def sum_list_triv)

lemma in_indices_iff:
  "ix \<in> set (indices shp) \<longleftrightarrow> length ix = length shp \<and> (\<forall>k < length shp. ix ! k < shp ! k)"
proof (induction shp arbitrary: ix)
  case Nil
  show ?case by simp
next
  case (Cons n ns)
  show ?case
  proof (cases ix)
    case Nil
    then show ?thesis by (auto simp: indices_Cons)
  next
    case (Cons i js)
    have "(\<forall>k < Suc (length ns). (i # js) ! k < (n # ns) ! k)
        \<longleftrightarrow> i < n \<and> (\<forall>k < length ns. js ! k < ns ! k)"
      by (auto simp: nth_Cons split: nat.splits)
    then show ?thesis using Cons Cons.IH[of js] by (auto simp: indices_Cons)
  qed
qed

lemma concat_shifted_upt:
  "concat (map (\<lambda>i. map (\<lambda>k. i * p + k) [0..<p]) [0..<n]) = [0..<n * p]"
proof (induction n)
  case 0
  show ?case by simp
next
  case (Suc n)
  have "map (\<lambda>k. n * p + k) [0..<p] = [n * p..<n * p + p]"
    by (simp add: map_add_upt add.commute)
  moreover have "[0..<n * p] @ [n * p..<n * p + p] = [0..<Suc n * p]"
    using upt_add_eq_append[of 0 "n * p" p] by (simp add: add.commute)
  ultimately show ?case using Suc by simp
qed

lemma map_ravel_indices: "map (ravel shp) (indices shp) = [0..<prod_list shp]"
proof (induction shp)
  case Nil
  show ?case by simp
next
  case (Cons n ns)
  have "map (ravel (n # ns)) (indices (n # ns))
      = concat (map (\<lambda>i. map (\<lambda>k. i * prod_list ns + k) (map (ravel ns) (indices ns))) [0..<n])"
    by (simp add: indices_Cons map_concat o_def)
  also have "\<dots> = [0..<n * prod_list ns]"
    by (simp only: Cons.IH concat_shifted_upt)
  finally show ?case by simp
qed


lemma ravel_snoc:
  "length ix = length shp \<Longrightarrow> ravel (shp @ [n]) (ix @ [j]) = ravel shp ix * n + j"
  by (induction shp ix rule: ravel.induct) (simp_all add: algebra_simps)

lemma ravel_ones_prefix: "ravel (replicate m 1 @ shp) (replicate m 0 @ ix) = ravel shp ix"
  by (induction m) simp_all

lemma ravel_nth_indices:
  assumes "p < prod_list shp"
  shows "ravel shp (indices shp ! p) = p"
proof -
  have "map (ravel shp) (indices shp) ! p = [0..<prod_list shp] ! p"
    by (simp only: map_ravel_indices)
  then show ?thesis using assms by simp
qed

lemma ravel_in_indices:
  assumes "ix \<in> set (indices shp)"
  shows "ravel shp ix < prod_list shp \<and> indices shp ! ravel shp ix = ix"
proof -
  from assms obtain p where p: "p < prod_list shp" and ix: "indices shp ! p = ix"
    by (auto simp: in_set_conv_nth)
  then have "ravel shp ix = p" using ravel_nth_indices by blast
  then show ?thesis using p ix by simp
qed

lemma item_map_indices:
  assumes "ix \<in> set (indices shp)"
  shows "item \<lparr>shape = shp, dtype = d, data = map g (indices shp)\<rparr> ix = g ix"
  using ravel_in_indices[OF assms] by (simp add: item_def)


section \<open>Embed: the rows of the table\<close>

lemma in_indices_pair: "[i, j] \<in> set (indices [m, n]) \<longleftrightarrow> i < m \<and> j < n"
  by (auto simp: in_indices_iff nth_Cons split: nat.splits)

lemma indices_pair_cases:
  assumes "ix \<in> set (indices [m, n])"
  obtains i j where "ix = [i, j]" and "i < m" and "j < n"
proof -
  from assms have "length ix = Suc (Suc 0)" by (simp add: in_indices_iff)
  then obtain i j where ix: "ix = [i, j]" by (auto simp: length_Suc_conv)
  with assms have "i < m" and "j < n" by (simp_all only: in_indices_pair)
  then show ?thesis using ix that by blast
qed

lemma index_of_single [simp]: "index_of x [y] = (if x = y then Some 0 else None)"
  by (simp add: index_of_def)

lemma embed_gather_check:
  assumes "shape table = [n, f]" and "shape inputs = [b, 1]"
  shows "gather_check table inputs
           \<lparr>offset_dims = [int (ndim inputs) - 1], collapsed_slice_dims = [0], start_index_map = [0]\<rparr>
           [1, f] = None"
  using assms by (simp add: gather_check_def)

lemma embed_gather_out_shape:
  assumes "shape inputs = [b, 1]"
  shows "gather_out_shape inputs
           \<lparr>offset_dims = [int (ndim inputs) - 1], collapsed_slice_dims = [0], start_index_map = [0]\<rparr>
           [1, f] = Some [b, f]"
  using assms by (simp add: gather_out_shape_def ndim_def Let_def nths_Cons)

lemma embed_gather_operand_index:
  assumes "shape inputs = [b, 1]"
  shows "gather_operand_index [n, f] inputs
           \<lparr>offset_dims = [int (ndim inputs) - 1], collapsed_slice_dims = [0], start_index_map = [0]\<rparr>
           [1, f] [i, j]
       = [clamp 0 (item inputs [i, 0]) (int n - 1), int j]"
  using assms by (simp add: gather_operand_index_def ndim_def Let_def)

lemma clamp_in_range: "0 \<le> x \<Longrightarrow> x < n \<Longrightarrow> clamp 0 x (n - 1) = x"
  by (simp add: clamp_def)

lemma embed_gather:
  fixes inputs :: "int tensor"
  assumes tshp: "shape table = [n, f]" and ishp: "shape inputs = [b, 1]"
    and rng: "\<forall>i < b. 0 \<le> item inputs [i, 0] \<and> item inputs [i, 0] < int n"
  shows "gather table inputs
           \<lparr>offset_dims = [int (ndim inputs) - 1], collapsed_slice_dims = [0], start_index_map = [0]\<rparr>
           [1, f]
       = Inr \<lparr>shape = [b, f], dtype = dtype table,
              data = map (\<lambda>ix. item table [nat (item inputs [hd ix, 0]), hd (tl ix)])
                         (indices [b, f])\<rparr>"
proof -
  let ?dn = "\<lparr>offset_dims = [int (ndim inputs) - 1], collapsed_slice_dims = [0],
               start_index_map = [0]\<rparr>"
  have goi: "gather_operand_index [n, f] inputs ?dn [1, f] ix
               = [item inputs [hd ix, 0], int (hd (tl ix))]"
    if "ix \<in> set (indices [b, f])" for ix
  proof -
    from that obtain i j where ix: "ix = [i, j]" and i: "i < b" and j: "j < f"
      by (rule indices_pair_cases)
    from rng i have "clamp 0 (item inputs [i, 0]) (int n - 1) = item inputs [i, 0]"
      by (simp add: clamp_in_range)
    then show ?thesis
      unfolding ix embed_gather_operand_index[OF ishp] by simp
  qed
  have inb: "in_bounds [n, f] (gather_operand_index [n, f] inputs ?dn [1, f] ix)"
    if "ix \<in> set (indices [b, f])" for ix
  proof -
    from that obtain i j where ix: "ix = [i, j]" and i: "i < b" and j: "j < f"
      by (rule indices_pair_cases)
    from rng i j have "in_bounds [n, f] [item inputs [i, 0], int j]"
      by (auto simp: in_bounds_def nth_Cons split: nat.splits)
    then show ?thesis using goi[OF that] by (simp add: ix)
  qed
  have data: "map (\<lambda>p. item table (map nat p))
                (map (gather_operand_index [n, f] inputs ?dn [1, f]) (indices [b, f]))
            = map (\<lambda>ix. item table [nat (item inputs [hd ix, 0]), hd (tl ix)]) (indices [b, f])"
  proof -
    have "\<forall>ix \<in> set (indices [b, f]).
        item table (map nat (gather_operand_index [n, f] inputs ?dn [1, f] ix))
          = item table [nat (item inputs [hd ix, 0]), hd (tl ix)]"
    proof
      fix ix assume "ix \<in> set (indices [b, f])"
      from goi[OF this] show "item table (map nat (gather_operand_index [n, f] inputs ?dn [1, f] ix))
          = item table [nat (item inputs [hd ix, 0]), hd (tl ix)]"
        by simp
    qed
    then show ?thesis by (simp add: o_def)
  qed
  have nob: "\<not> (\<exists>p \<in> set (map (gather_operand_index [n, f] inputs ?dn [1, f]) (indices [b, f])).
                \<not> in_bounds [n, f] p)"
    using inb by auto
  show ?thesis
    unfolding gather_def embed_gather_check[OF tshp ishp] embed_gather_out_shape[OF ishp]
      tshp Let_def option.case if_not_P[OF nob] data
    by (rule refl)
qed

text \<open>
  C3. Take an \<open>Embed\<close> call whose input has one of the four accepted integer dtypes and
  the shape \<open>(B, 1)\<close> with every entry in the range \<open>[0, num_embeddings)\<close>, and whose
  embedding table (fetched from the store, or created by the initializer) has the shape
  \<open>(num_embeddings, features)\<close>. The call returns an array of shape \<open>(B, features)\<close> with
  the dtype of the table, and for every row \<open>i\<close> and column \<open>j\<close> its element is the
  element of the table in row \<open>input[i]\<close> and column \<open>j\<close>.
\<close>

theorem Embed_rows:
  fixes inputs :: "int tensor"
  assumes dt: "dtype inputs \<in> {int32, int64, uint32, uint64}"
    and ishp: "shape inputs = [B, 1]"
    and rng: "\<forall>i < B. 0 \<le> item inputs [i, 0] \<and> item inputs [i, 0] < int num_embeddings"
    and tab: "param st rg ''embedding'' [num_embeddings, features]
                (\<lambda>r s. Inr (embedding_init r s float32)) = (Inr table, st1)"
    and tshp: "shape table = [num_embeddings, features]"
  shows "\<exists>out. Embed_apply rg embedding_init inputs num_embeddings features st = (Inr out, st1)
      \<and> shape out = [B, features] \<and> dtype out = dtype table \<and> wf_tensor out
      \<and> (\<forall>i < B. \<forall>j < features.
            item out [i, j] = item table [nat (item inputs [i, 0]), j])"
proof -
  let ?out = "\<lparr>shape = [B, features], dtype = dtype table,
              data = map (\<lambda>ix. item table [nat (item inputs [hd ix, 0]), hd (tl ix)])
                         (indices [B, features])\<rparr>"
  have call: "Embed_apply rg embedding_init inputs num_embeddings features st = (Inr ?out, st1)"
    using dt
    by (simp add: Embed_apply_def tab Let_def embed_gather[OF tshp ishp rng, unfolded One_nat_def])
  have items: "\<forall>i < B. \<forall>j < features.
      item ?out [i, j] = item table [nat (item inputs [i, 0]), j]"
  proof (intro allI impI)
    fix i j assume "i < B" and "j < features"
    then have "[i, j] \<in> set (indices [B, features])" by (simp only: in_indices_pair)
    from item_map_indices[OF this, where d = "dtype table"
        and g = "\<lambda>ix. item table [nat (item inputs [hd ix, 0]), hd (tl ix)]"] show
      "item ?out [i, j] = item table [nat (item inputs [i, 0]), j]"
      by simp
  qed
  have wf: "wf_tensor ?out" by (simp add: wf_tensor_def length_indices)
  from call items wf show ?thesis by (intro exI[of _ ?out]) simp
qed

theorem Embed_rows_witness:
  "Embed_apply () ones idx41 3 2 [''embedding'' \<mapsto> table32]
     = (Inr \<lparr>shape = [4, 2], dtype = float32, data = [30, 31, 10, 11, 20, 21, 30, 31]\<rparr>,
        [''embedding'' \<mapsto> table32])"
proof -
  define r where "r = Embed_apply () ones idx41 3 2 [''embedding'' \<mapsto> table32]"
  have dt: "dtype idx41 \<in> {int32, int64, uint32, uint64}" by (simp add: idx41_def)
  have ishp: "shape idx41 = [4, 1]" by (simp add: idx41_def)
  have rng: "\<forall>i < 4. 0 \<le> item idx41 [i, 0] \<and> item idx41 [i, 0] < int 3"
    by (simp add: idx41_def item_def less_Suc_eq numeral_eq_Suc)
  have tab: "param [''embedding'' \<mapsto> table32] () ''embedding'' [3, 2]
                (\<lambda>r s. Inr (ones r s float32)) = (Inr table32, [''embedding'' \<mapsto> table32])"
    by (simp add: param_def)
  have tshp: "shape table32 = [3, 2]" by (simp add: table32_def)
  from Embed_rows[where embedding_init = ones, OF dt ishp rng tab tshp] have "snd r = [''embedding'' \<mapsto> table32]"
    unfolding r_def by auto
  moreover have "fst r = Inr \<lparr>shape = [4, 2], dtype = float32, data = [30, 31, 10, 11, 20, 21, 30, 31]\<rparr>"
    unfolding r_def by code_simp
  ultimately show ?thesis unfolding r_def by (metis prod.collapse)
qed


section \<open>Scattering index components\<close>

lemma scatter_index_Nil [simp]: "scatter_index [] vs ix = ix"
  by (simp add: scatter_index_def)

lemma scatter_index_single [simp]: "scatter_index [d] [v] ix = ix[d := v]"
  by (simp add: scatter_index_def)

lemma scatter_index_prefix:
  "length vs = m \<Longrightarrow> m \<le> length ix \<Longrightarrow> scatter_index [0..<m] vs ix = vs @ drop m ix"
proof (induction m arbitrary: vs)
  case 0
  then show ?case by simp
next
  case (Suc m)
  then obtain vs' v where vs: "vs = vs' @ [v]" and l: "length vs' = m"
    by (metis length_Suc_conv_rev)
  have "scatter_index [0..<Suc m] vs ix = (scatter_index [0..<m] vs' ix)[m := v]"
    by (simp add: scatter_index_def vs l)
  also have "\<dots> = (vs' @ drop m ix)[m := v]"
    using Suc.IH[OF l] Suc.prems by simp
  also have "\<dots> = vs' @ v # drop (Suc m) ix"
    using l Suc.prems by (simp add: list_update_append upd_conv_take_nth_drop)
  finally show ?case by (simp add: vs)
qed


section \<open>Contraction of the last axis\<close>

lemma free_dims_last: "free_dims (Suc m) [m] = [0..<m]"
  by (simp add: free_dims_def)

lemma free_dims_matrix: "free_dims (Suc (Suc 0)) [0] = [Suc 0]"
  by (simp add: free_dims_def upt_rec)

lemma map_nth_prefix: "map ((!) (s @ t)) [0..<length s] = s"
proof -
  have "map ((!) (s @ t)) [0..<length s] = map ((!) s) [0..<length s]"
    by (rule map_cong) (simp_all add: nth_append)
  then show ?thesis by (simp add: map_nth)
qed

lemma indices_single: "indices [n] = map (\<lambda>c. [c]) [0..<n]"
  by (simp add: indices_Cons map_concat o_def concat_map_singleton)

lemma replicate_update_last: "(replicate (Suc m) a)[m := c] = replicate m a @ [c]"
proof -
  have "(replicate (Suc m) a)[m := c] = (replicate m a @ [a])[m := c]"
    by (simp add: replicate_append_same)
  also have "\<dots> = replicate m a @ [c]"
    by (simp add: list_update_append)
  finally show ?thesis .
qed

lemma dot_general_check_last_axis:
  assumes "shape x = s @ [n]" and "shape k = [n, f]" and "dtype x = dtype k"
  shows "dot_general_check x k [int (ndim x) - 1] [0] [] [] = None"
  using assms by (simp add: dot_general_check_def valid_dims_def ndim_def nth_append)

lemma dot_general_shape_last_axis:
  assumes "shape x = s @ [n]" and "shape k = [n, f]"
  shows "dot_general_shape x k [length s] [0] [] [] = s @ [f]"
  using assms
  by (simp add: dot_general_shape_def ndim_def free_dims_last free_dims_matrix map_nth_prefix)

lemma dot_general_elem_last_axis:
  assumes "shape x = s @ [n]" and "shape k = [n, f]" and "length ix = Suc (length s)"
  shows "dot_general_elem x k [length s] [0] [] [] ix
       = (\<Sum>c\<leftarrow>[0..<n]. item x (butlast ix @ [c]) * item k [c, last ix])"
proof -
  have t: "take (length s) ix = butlast ix"
    using assms(3) by (simp add: butlast_conv_take)
  have d: "drop (length s) ix = [last ix]"
    using assms(3)
  proof -
    have "ix \<noteq> []" using assms(3) by auto
    then have "butlast ix @ [last ix] = ix" by simp
    then have "drop (length (butlast ix)) (butlast ix @ [last ix]) = drop (length s) ix"
      using assms(3) by simp
    then show ?thesis by simp
  qed
  have nx: "ndim x = Suc (length s)" and nk: "ndim k = Suc (Suc 0)"
    using assms(1,2) by (simp_all add: ndim_def)
  have fl: "free_dims (Suc (length s)) ([length s] @ []) = [0..<length s]"
    by (simp add: free_dims_last)
  have fr: "free_dims (Suc (Suc 0)) ([0] @ []) = [Suc 0]"
    by (simp add: free_dims_matrix)
  have cs: "indices (map ((!) (shape x)) [length s]) = map (\<lambda>c. [c]) [0..<n]"
    using assms(1) by (simp add: indices_single)
  have li: "\<And>c. scatter_index [0..<length s] (butlast ix)
       (scatter_index [length s] [c] (scatter_index [] [] (replicate (Suc (length s)) 0)))
      = butlast ix @ [c]"
    using assms(3)
    by (simp only: scatter_index_Nil scatter_index_single replicate_update_last)
       (simp add: scatter_index_prefix)
  have ri: "\<And>c. scatter_index [Suc 0] [last ix]
       (scatter_index [0] [c] (scatter_index [] [] (replicate (Suc (Suc 0)) 0))) = [c, last ix]"
    by simp
  show ?thesis
    by (simp only: dot_general_elem_def Let_def nx nk fl fr cs list.size take_0 drop_0
        add_0 length_upt diff_zero t d map_map o_def li ri)
qed


lemma dot_general_last_axis:
  assumes "shape x = s @ [n]" and "shape k = [n, f]" and "dtype x = dtype k"
  shows "dot_general x k (([int (ndim x) - 1], [0]), ([], [])) prec
       = Inr \<lparr>shape = s @ [f], dtype = dtype x,
              data = map (\<lambda>ix. \<Sum>c\<leftarrow>[0..<n]. item x (butlast ix @ [c]) * item k [c, last ix])
                         (indices (s @ [f]))\<rparr>"
proof -
  have n: "nat (int (ndim x) - 1) = length s"
    using assms(1) by (simp add: ndim_def)
  have e: "map (dot_general_elem x k [length s] [0] [] []) (indices (s @ [f]))
      = map (\<lambda>ix. \<Sum>c\<leftarrow>[0..<n]. item x (butlast ix @ [c]) * item k [c, last ix])
            (indices (s @ [f]))"
    by (rule map_cong[OF refl]) (simp add: dot_general_elem_last_axis[OF assms(1,2)] in_indices_iff)
  show ?thesis
    by (simp add: dot_general_def dot_general_check_last_axis[OF assms] Let_def n
        dot_general_shape_last_axis[OF assms(1,2)] e)
qed

lemma shape_dot_general_last_axis:
  assumes "shape x = s @ [n]" and "shape k = [n, f]" and "dtype x = dtype k"
  shows "\<exists>y. dot_general x k (([int (ndim x) - 1], [0]), ([], [])) prec = Inr y
           \<and> shape y = s @ [f] \<and> dtype y = dtype x"
  by (simp add: dot_general_last_axis[OF assms])

section \<open>Dense with an identity kernel\<close>








section \<open>Expanding and broadcasting the bias\<close>

lemma foldM_append:
  "foldM f a (xs @ ys) = (case foldM f a xs of Inl e \<Rightarrow> Inl e | Inr b \<Rightarrow> foldM f b ys)"
  by (induction xs arbitrary: a) (simp_all split: sum.splits)

lemma expand_dims_at:
  assumes "m \<le> length (shape t)"
  shows "expand_dims t (int m) = Inr (t\<lparr>shape := take m (shape t) @ [1] @ drop m (shape t)\<rparr>)"
  using assms by (simp add: expand_dims_def ndim_def Let_def)

lemma foldM_expand_dims_leading:
  "foldM expand_dims b (map int [0..<m]) = Inr (b\<lparr>shape := replicate m 1 @ shape b\<rparr>)"
proof (induction m)
  case 0
  show ?case by simp
next
  case (Suc m)
  have "expand_dims (b\<lparr>shape := replicate m 1 @ shape b\<rparr>) (int m)
      = Inr (b\<lparr>shape := replicate (Suc m) 1 @ shape b\<rparr>)"
    by (simp add: expand_dims_at replicate_append_same)
  then show ?case using Suc by (simp add: foldM_append)
qed

lemma sorted_list_of_set_map_int_upt:
  "sorted_list_of_set (int ` {0..<m}) = map int [0..<m]"
proof -
  have "sorted (map int [0..<m])" by (simp add: sorted_map)
  moreover have "distinct (map int [0..<m])" by (simp add: distinct_map)
  ultimately have "sorted_list_of_set (set (map int [0..<m])) = map int [0..<m]"
    by (rule sorted_list_of_set.idem_if_sorted_distinct)
  then show ?thesis by simp
qed

lemma bias_expand_dims_last_axis:
  "bias_expand_dims (Suc m) [int m] [] = map int [0..<m]"
proof -
  have "set (map int [0..<Suc m]) - set [int m] - set [] = int ` {0..<m}" by auto
  then show ?thesis
    unfolding bias_expand_dims_def by (simp only: sorted_list_of_set_map_int_upt)
qed

lemma length_broadcast_shapes:
  "broadcast_shapes s1 s2 = Inr shp \<Longrightarrow> length shp = max (length s1) (length s2)"
  by (auto simp: broadcast_shapes_def Let_def split: if_splits)

lemma broadcast_shapes_ones_prefix:
  assumes "m + length s2 \<le> length s1"
  shows "broadcast_shapes s1 (replicate m 1 @ s2) = broadcast_shapes s1 s2"
proof -
  have r: "max (length s1) (length (replicate m (1::nat) @ s2)) = length s1"
    and r': "max (length s1) (length s2) = length s1"
    using assms by simp_all
  have "replicate (length s1 - (m + length s2)) (1::nat) @ replicate m 1
      = replicate (length s1 - length s2) 1"
    using assms by (simp add: replicate_add[symmetric])
  then have p: "replicate (length s1 - length (replicate m (1::nat) @ s2)) 1 @ replicate m 1 @ s2
      = replicate (length s1 - length s2) 1 @ s2"
    by (simp del: replicate_add)
  show ?thesis
    unfolding broadcast_shapes_def Let_def r r' p by (rule refl)
qed

lemma bcast_index_ones_prefix:
  assumes "m + length s \<le> length ix"
  shows "bcast_index (replicate m 1 @ s) ix = replicate m 0 @ bcast_index s ix"
proof -
  define a where "a = length ix - (m + length s)"
  have d: "drop a ix = take m (drop a ix) @ drop (a + m) ix"
    by (metis append_take_drop_id drop_drop add.commute)
  have l: "length (take m (drop a ix)) = m" using assms by (simp add: a_def)
  have am: "a + m = length ix - length s" using assms by (simp add: a_def)
  have "zip (replicate m (1::nat) @ s) (drop a ix)
      = zip (replicate m 1) (take m (drop a ix)) @ zip s (drop (a + m) ix)"
    by (subst d, rule zip_append) (use l in simp)
  moreover have "map (\<lambda>(d, i). if d = 1 then 0 else i) (zip (replicate m (1::nat)) (take m (drop a ix)))
      = replicate m (0::nat)"
    using l by (simp add: zip_replicate1 map_replicate_const o_def)
  ultimately show ?thesis
    by (simp add: bcast_index_def a_def[symmetric] am)
qed

lemma add_ones_prefix:
  assumes "m + length (shape b) \<le> length (shape y)"
  shows "add fw y (b\<lparr>shape := replicate m 1 @ shape b\<rparr>) = add fw y b"
proof -
  define b' where "b' = b\<lparr>shape := replicate m 1 @ shape b\<rparr>"
  have sb: "shape b' = replicate m 1 @ shape b" and db: "dtype b' = dtype b"
    by (simp_all add: b'_def)
  have bs: "broadcast_shapes (shape y) (shape b') = broadcast_shapes (shape y) (shape b)"
    unfolding sb by (rule broadcast_shapes_ones_prefix[OF assms])
  show ?thesis
  proof (cases "broadcast_shapes (shape y) (shape b)")
    case (Inl e)
    then show ?thesis unfolding b'_def[symmetric] add_def bs by simp
  next
    case (Inr shp)
    define dt where "dt = promote_types fw (dtype y) (dtype b)"
    have len: "length shp = length (shape y)"
      using length_broadcast_shapes[OF Inr] assms by simp
    have "map (\<lambda>ix. item (asarray fw y dt) (bcast_index (shape y) ix)
              + item (asarray fw b' dt) (bcast_index (shape b') ix)) (indices shp)
        = map (\<lambda>ix. item (asarray fw y dt) (bcast_index (shape y) ix)
              + item (asarray fw b dt) (bcast_index (shape b) ix)) (indices shp)"
    proof (rule map_cong[OF refl])
      fix ix assume "ix \<in> set (indices shp)"
      then have "length ix = length (shape y)" by (simp add: in_indices_iff len)
      then have bi: "bcast_index (shape b') ix = replicate m 0 @ bcast_index (shape b) ix"
        unfolding sb using assms by (intro bcast_index_ones_prefix) simp
      have "item (asarray fw b' dt) (replicate m 0 @ bcast_index (shape b) ix)
          = item (asarray fw b dt) (bcast_index (shape b) ix)"
        unfolding item_def shape_asarray sb ravel_ones_prefix
        by (simp add: asarray_def b'_def)
      then show "item (asarray fw y dt) (bcast_index (shape y) ix)
              + item (asarray fw b' dt) (bcast_index (shape b') ix)
          = item (asarray fw y dt) (bcast_index (shape y) ix)
              + item (asarray fw b dt) (bcast_index (shape b) ix)"
        by (simp only: bi)
    qed
    then show ?thesis
      unfolding b'_def[symmetric] add_def bs Inr db Let_def dt_def[symmetric] by simp
  qed
qed


section \<open>DenseGeneral on the last axis and Dense\<close>

lemma check_batch_dims_Nil [simp]: "check_batch_dims [] = None"
  by (simp add: check_batch_dims_def)

lemma normalize_axes_Nil [simp]: "normalize_axes [] nd = []"
  by (simp add: normalize_axes_def)

lemma normalize_axes_minus_one: "normalize_axes [- 1] nd = [nd - 1]"
  by (simp add: normalize_axes_def)

lemma shape_at_last_axis:
  "shape t = s @ [n] \<Longrightarrow> shape_at t (int (ndim t) - 1) = Inr n"
  by (simp add: shape_at_def ndim_def Let_def)

lemma shape_at_rank0: "shape t = [] \<Longrightarrow> shape_at t (int (ndim t) - 1) = Inl IndexError"
  by (simp add: shape_at_def ndim_def Let_def)

text \<open>
  C1, amended. Let the input and the stored kernel already have the computation dtype of
  \<open>Dense\<close>, the kernel the declared shape \<open>(in, features)\<close> and, when the bias is enabled,
  the stored bias the declared shape \<open>(features,)\<close>. Then \<open>DenseGeneral\<close> with
  \<open>axis = -1\<close> and \<open>batch_dims = ()\<close> returns exactly what \<open>Dense\<close> returns with the same
  features, bias flag, precision and parameters: the same output (or the same error, for an
  input without axes) and the same store.
\<close>

theorem DenseGeneral_last_axis_is_Dense:
  fixes inputs :: "'a::semiring_0 tensor"
  assumes "dtype inputs = dt"
    and "st ''kernel'' = Some k" and "dtype k = dt"
    and "shape k = [last (shape inputs), features]"
    and "bias \<longrightarrow> (\<exists>b. st ''bias'' = Some b \<and> shape b = [features])"
  shows "DenseGeneral_apply fw rng ki bi inputs (Scalar features) (Scalar (- 1)) (Tuple []) bias prec st
       = Dense_apply fw rng ki' bi' inputs features bias dt prec st"
proof (cases "shape inputs" rule: rev_cases)
  case Nil
  have "DenseGeneral_apply fw rng ki bi inputs (Scalar features) (Scalar (- 1)) (Tuple []) bias prec st
      = (Inl IndexError, st)"
    unfolding DenseGeneral_apply_def Let_def as_tuple.simps normalize_axes_minus_one
      normalize_axes_Nil
    by (simp add: shape_at_rank0[OF Nil])
  moreover have "Dense_apply fw rng ki' bi' inputs features bias dt prec st = (Inl IndexError, st)"
    using assms(1) Nil by (simp add: Dense_apply_def Let_def asarray_same shape_at_last_empty)
  ultimately show ?thesis by simp
next
  case (snoc s n)
  have nd: "ndim inputs = Suc (length s)" by (simp add: ndim_def snoc)
  have sk: "shape k = [n, features]" using assms(4) snoc by simp
  have dk: "dtype inputs = dtype k" using assms(1,3) by simp
  obtain y where y: "dot_general inputs k (([int (ndim inputs) - 1], [0]), ([], [])) prec = Inr y"
    and sy: "shape y = s @ [features]"
    using shape_dot_general_last_axis[OF snoc sk dk] by blast
  have pk: "\<And>shp init. param st rng ''kernel'' shp init = (Inr k, st)"
    using assms(2) by (simp add: param_def)
  have dg: "DenseGeneral_apply fw rng ki bi inputs (Scalar features) (Scalar (- 1)) (Tuple []) bias prec st
      = (if bias then
           case param st rng ''bias'' [features]
                  (\<lambda>r s. bias_init_wrap fw bi 0 (Suc 0) r s float32) of
             (Inl e, st2) \<Rightarrow> (Inl e, st2)
           | (Inr bias_p, st2) \<Rightarrow>
               (case foldM expand_dims bias_p (bias_expand_dims (ndim inputs) [int (ndim inputs) - 1] []) of
                  Inl e \<Rightarrow> (Inl e, st2)
                | Inr bias_b \<Rightarrow> (add fw y bias_b, st2))
         else (Inr y, st))"
    unfolding DenseGeneral_apply_def Let_def as_tuple.simps normalize_axes_minus_one
      normalize_axes_Nil
    by (simp add: shape_at_last_axis[OF snoc] pk y)
  have de: "Dense_apply fw rng ki' bi' inputs features bias dt prec st
      = (if bias then
           case param st rng ''bias'' [features] (\<lambda>r s. Inr (bi' r s float32)) of
             (Inl e, st2) \<Rightarrow> (Inl e, st2)
           | (Inr bias_p, st2) \<Rightarrow> (add fw y bias_p, st2)
         else (Inr y, st))"
    using assms(1,3) snoc
    by (simp add: Dense_apply_def Let_def asarray_same shape_at_last[of inputs] pk y)
  show ?thesis
  proof (cases bias)
    case False
    then show ?thesis unfolding dg de by simp
  next
    case True
    then obtain b where b: "st ''bias'' = Some b" and sb: "shape b = [features]"
      using assms(5) by blast
    have pb: "\<And>shp init. param st rng ''bias'' shp init = (Inr b, st)"
      using b by (simp add: param_def)
    have ex: "foldM expand_dims b (bias_expand_dims (ndim inputs) [int (ndim inputs) - 1] [])
        = Inr (b\<lparr>shape := replicate (length s) 1 @ shape b\<rparr>)"
    proof -
      have "int (ndim inputs) - 1 = int (length s)" by (simp add: nd)
      then show ?thesis
        by (simp only: nd bias_expand_dims_last_axis foldM_expand_dims_leading)
    qed
    have "add fw y (b\<lparr>shape := replicate (length s) 1 @ shape b\<rparr>) = add fw y b"
      by (rule add_ones_prefix) (simp add: sb sy)
    then show ?thesis unfolding dg de using True by (simp add: pb ex)
  qed
qed


theorem DenseGeneral_last_axis_is_Dense_witness:
  "DenseGeneral_apply example_fw () ones zeros x23 (Scalar 2) (Scalar (- 1)) (Tuple []) True None
       [''kernel'' \<mapsto> kernel32, ''bias'' \<mapsto> bias2]
     = Dense_apply example_fw () ones zeros x23 2 True float32 None
         [''kernel'' \<mapsto> kernel32, ''bias'' \<mapsto> bias2]
   \<and> fst (Dense_apply example_fw () ones zeros x23 2 True float32 None
         [''kernel'' \<mapsto> kernel32, ''bias'' \<mapsto> bias2])
     = Inr \<lparr>shape = [2, 2], dtype = float32, data = [14, 25, 20, 31]\<rparr>"
proof -
  have v: "fst (Dense_apply example_fw () ones zeros x23 2 True float32 None
         [''kernel'' \<mapsto> kernel32, ''bias'' \<mapsto> bias2])
     = Inr \<lparr>shape = [2, 2], dtype = float32, data = [14, 25, 20, 31]\<rparr>"
    by code_simp
  have h: "dtype x23 = float32" "dtype kernel32 = float32"
    "shape kernel32 = [last (shape x23), 2]" "shape bias2 = [2]"
    by (simp_all add: x23_def kernel32_def bias2_def)
  show ?thesis
    using DenseGeneral_last_axis_is_Dense[where inputs = x23 and dt = float32
        and st = "[''kernel'' \<mapsto> kernel32, ''bias'' \<mapsto> bias2]" and k = kernel32
        and features = 2 and bias = True and fw = example_fw and rng = "()" and ki = ones
        and bi = zeros and ki' = ones and bi' = zeros and prec = None] h v
    by simp
qed

text \<open>
  C1 as stated fails, because \<open>Dense\<close> converts the input and the kernel to its computation
  dtype and \<open>DenseGeneral\<close> has no such conversion. On the input \<open>[3/2]\<close> with the kernel
  \<open>[[1]]\<close>, \<open>Dense\<close> with \<open>dtype = int32\<close> returns \<open>[1]\<close> and \<open>DenseGeneral\<close> returns
  \<open>[3/2]\<close>; on the same values tagged \<open>float64\<close>, \<open>Dense\<close> with its default dtype returns
  a \<open>float32\<close> array and \<open>DenseGeneral\<close> a \<open>float64\<close> array.
\<close>

theorem Dense_casts_DenseGeneral_does_not:
  "fst (DenseGeneral_apply example_fw () ones zeros half3 (Scalar 1) (Scalar (- 1)) (Tuple [])
          False None [''kernel'' \<mapsto> unit_kernel])
     = Inr \<lparr>shape = [1], dtype = float32, data = [3 / 2]\<rparr>
   \<and> fst (Dense_apply example_fw () ones zeros half3 1 False int32 None
          [''kernel'' \<mapsto> unit_kernel])
     = Inr \<lparr>shape = [1], dtype = int32, data = [1]\<rparr>
   \<and> fst (DenseGeneral_apply example_fw () ones zeros (half3\<lparr>dtype := float64\<rparr>) (Scalar 1)
          (Scalar (- 1)) (Tuple []) False None [''kernel'' \<mapsto> unit_kernel\<lparr>dtype := float64\<rparr>])
     = Inr \<lparr>shape = [1], dtype = float64, data = [3 / 2]\<rparr>
   \<and> fst (Dense_apply example_fw () ones zeros (half3\<lparr>dtype := float64\<rparr>) 1 False float32 None
          [''kernel'' \<mapsto> unit_kernel\<lparr>dtype := float64\<rparr>])
     = Inr \<lparr>shape = [1], dtype = float32, data = [3 / 2]\<rparr>"
  by code_simp

section \<open>Singleton axes inserted in ascending order\<close>

lemma param_result:
  "param st rng name shp init = (Inr p, st') \<Longrightarrow>
     st' name = Some p \<and> (\<forall>other. other \<noteq> name \<longrightarrow> st' other = st other)
     \<and> (st name = None \<longrightarrow> init rng shp = Inr p)"
  by (auto simp: param_def split: option.splits sum.splits)







section \<open>What a successful call has done\<close>

lemma DenseGeneral_apply_success:
  assumes "DenseGeneral_apply fw rng ki bi inputs features axis batch_dims bias prec st = (Inr out, st')"
  shows "\<exists>batch_shape axis_shape kernel_p st1 y.
      check_batch_dims (as_tuple batch_dims) = None
    \<and> mapM (shape_at inputs) (normalize_axes (as_tuple batch_dims) (int (ndim inputs))) = Inr batch_shape
    \<and> mapM (shape_at inputs) (normalize_axes (as_tuple axis) (int (ndim inputs))) = Inr axis_shape
    \<and> param st rng ''kernel'' (batch_shape @ axis_shape @ as_tuple features)
         (\<lambda>r s. kernel_init_wrap fw ki (length (as_tuple batch_dims)) (length (as_tuple axis))
                  (length (as_tuple features)) r s float32) = (Inr kernel_p, st1)
    \<and> dot_general inputs kernel_p
         ((normalize_axes (as_tuple axis) (int (ndim inputs)),
           map int [length (as_tuple batch_dims)..<length (as_tuple axis) + length (as_tuple batch_dims)]),
          (normalize_axes (as_tuple batch_dims) (int (ndim inputs)),
           map int [0..<length (as_tuple batch_dims)])) prec = Inr y
    \<and> (if bias then
          \<exists>bias_p bias_b.
              param st1 rng ''bias'' (batch_shape @ as_tuple features)
                (\<lambda>r s. bias_init_wrap fw bi (length (as_tuple batch_dims))
                         (length (as_tuple features)) r s float32) = (Inr bias_p, st')
            \<and> foldM expand_dims bias_p
                (bias_expand_dims (ndim inputs)
                   (normalize_axes (as_tuple axis) (int (ndim inputs)))
                   (normalize_axes (as_tuple batch_dims) (int (ndim inputs)))) = Inr bias_b
            \<and> add fw y bias_b = Inr out
        else out = y \<and> st' = st1)"
  using assms unfolding DenseGeneral_apply_def Let_def length_normalize_axes
  by (auto split: option.splits sum.splits prod.splits if_splits)

lemma Dense_apply_success:
  assumes "Dense_apply fw rng ki bi inputs features bias dt prec st = (Inr out, st')"
  shows "\<exists>n kernel_p st1 y.
      shape_at (asarray fw inputs dt) (- 1) = Inr n
    \<and> param st rng ''kernel'' [n, features] (\<lambda>r s. Inr (ki r s float32)) = (Inr kernel_p, st1)
    \<and> dot_general (asarray fw inputs dt) (asarray fw kernel_p dt)
         (([int (ndim inputs) - 1], [0]), ([], [])) prec = Inr y
    \<and> (if bias then
          \<exists>bias_p. param st1 rng ''bias'' [features] (\<lambda>r s. Inr (bi r s float32)) = (Inr bias_p, st')
            \<and> add fw y bias_p = Inr out
        else out = y \<and> st' = st1)"
  using assms unfolding Dense_apply_def Let_def ndim_asarray
  by (auto split: option.splits sum.splits prod.splits if_splits)

lemma Conv_apply_success:
  assumes "Conv_apply fw conv rng ki bi inputs features ks strides pad ld rd fgc bias dt prec st
      = (Inr out, st')"
  shows "\<exists>n kernel_p st1 y.
      shape_at (asarray fw inputs dt) (- 1) = Inr n \<and> fgc \<noteq> 0 \<and> int n mod fgc = 0
    \<and> param st rng ''kernel'' (map int ks @ [int n div fgc, int features])
         (\<lambda>r s. Inr (ki r s float32))
         = (Inr kernel_p, st1)
    \<and> conv \<lparr>conv_lhs = asarray fw inputs dt, conv_rhs = asarray fw kernel_p dt,
             window_strides = (case strides of None \<Rightarrow> replicate (ndim inputs - 2) 1 | Some s \<Rightarrow> s),
             conv_padding = pad, lhs_dilation = ld, rhs_dilation = rd,
             dimension_numbers = conv_dimension_numbers_of (shape inputs),
             feature_group_count = fgc, conv_precision = prec\<rparr> = Inr y
    \<and> (if bias then
          \<exists>bias_p. param st1 rng ''bias'' [int features] (\<lambda>r s. Inr (bi r s float32))
              = (Inr bias_p, st')
            \<and> add fw y (asarray fw bias_p dt) = Inr out
        else out = y \<and> st' = st1)"
  using assms unfolding Conv_apply_def Let_def ndim_asarray shape_asarray
  by (auto split: option.splits sum.splits prod.splits if_splits)


section \<open>The bias of DenseGeneral\<close>

lemma reshape_shape: "reshape t shp = Inr r \<Longrightarrow> shape r = shp"
  by (auto simp: reshape_def split: if_splits)


lemma kernel_init_wrap_shape:
  "kernel_init_wrap fw ki nb na nf rng shp dt = Inr p \<Longrightarrow> shape p = shp"
  unfolding kernel_init_wrap_def Let_def
  by (auto split: sum.splits dest: reshape_shape)














section \<open>The dtype of the output of Dense and Conv\<close>

lemma dtype_dot_general: "dot_general a b dn prec = Inr y \<Longrightarrow> dtype y = dtype a"
  by (auto simp: dot_general_def Let_def split: prod.splits option.splits)

lemma dtype_add: "add fw a b = Inr y \<Longrightarrow> dtype y = promote_types fw (dtype a) (dtype b)"
  by (auto simp: add_def Let_def split: sum.splits)

text \<open>
  C10. When \<open>Dense\<close> with the bias enabled returns, it has contracted the input and the
  kernel after converting both to the dtype argument, so the contraction output has that
  dtype, and it has added the bias parameter as stored: the dtype of the result is the
  promotion of the dtype argument with the dtype of the bias parameter. When \<open>Conv\<close> with
  the bias enabled returns, it has added the bias converted to the dtype argument: the dtype
  of the result is the promotion of the convolution output's dtype with the dtype argument,
  whatever the dtype of the bias parameter is.
\<close>

theorem Dense_bias_not_cast:
  "(Dense_apply fw rng ki bi inputs features True dt prec st = (Inr out, st') \<longrightarrow>
      (\<exists>kernel_p bias_p y.
          st' ''kernel'' = Some kernel_p \<and> st' ''bias'' = Some bias_p
        \<and> dot_general (asarray fw inputs dt) (asarray fw kernel_p dt)
            (([int (ndim inputs) - 1], [0]), ([], [])) prec = Inr y
        \<and> dtype y = dt
        \<and> add fw y bias_p = Inr out
        \<and> dtype out = promote_types fw dt (dtype bias_p)))
   \<and> (Conv_apply fw conv rng cki cbi inputs features ks strides pad ld rd fgc True dt prec st
        = (Inr out, st') \<longrightarrow>
      (\<exists>kernel_p bias_p y.
          st' ''kernel'' = Some kernel_p \<and> st' ''bias'' = Some bias_p
        \<and> conv \<lparr>conv_lhs = asarray fw inputs dt, conv_rhs = asarray fw kernel_p dt,
                 window_strides =
                   (case strides of None \<Rightarrow> replicate (ndim inputs - 2) 1 | Some s \<Rightarrow> s),
                 conv_padding = pad, lhs_dilation = ld, rhs_dilation = rd,
                 dimension_numbers = conv_dimension_numbers_of (shape inputs),
                 feature_group_count = fgc, conv_precision = prec\<rparr> = Inr y
        \<and> add fw y (asarray fw bias_p dt) = Inr out
        \<and> dtype out = promote_types fw (dtype y) dt))"
proof (intro conjI impI)
  assume "Dense_apply fw rng ki bi inputs features True dt prec st = (Inr out, st')"
  from Dense_apply_success[OF this]
  obtain n kernel_p st1 y bias_p where
    pk: "param st rng ''kernel'' [n, features] (\<lambda>r s. Inr (ki r s float32)) = (Inr kernel_p, st1)"
    and dg: "dot_general (asarray fw inputs dt) (asarray fw kernel_p dt)
         (([int (ndim inputs) - 1], [0]), ([], [])) prec = Inr y"
    and pb: "param st1 rng ''bias'' [features] (\<lambda>r s. Inr (bi r s float32)) = (Inr bias_p, st')"
    and ad: "add fw y bias_p = Inr out"
    by auto
  have "st1 ''kernel'' = Some kernel_p" using param_result[OF pk] by simp
  then have "st' ''kernel'' = Some kernel_p" and "st' ''bias'' = Some bias_p"
    using param_result[OF pb] by simp_all
  moreover have "dtype y = dt" using dtype_dot_general[OF dg] by simp
  moreover from this have "dtype out = promote_types fw dt (dtype bias_p)"
    using dtype_add[OF ad] by simp
  ultimately show "\<exists>kernel_p bias_p y.
          st' ''kernel'' = Some kernel_p \<and> st' ''bias'' = Some bias_p
        \<and> dot_general (asarray fw inputs dt) (asarray fw kernel_p dt)
            (([int (ndim inputs) - 1], [0]), ([], [])) prec = Inr y
        \<and> dtype y = dt
        \<and> add fw y bias_p = Inr out
        \<and> dtype out = promote_types fw dt (dtype bias_p)"
    using dg ad by blast
next
  assume "Conv_apply fw conv rng cki cbi inputs features ks strides pad ld rd fgc True dt prec st
        = (Inr out, st')"
  from Conv_apply_success[OF this]
  obtain n kernel_p st1 y bias_p where
    pk: "param st rng ''kernel'' (map int ks @ [int n div fgc, int features])
         (\<lambda>r s. Inr (cki r s float32)) = (Inr kernel_p, st1)"
    and cv: "conv \<lparr>conv_lhs = asarray fw inputs dt, conv_rhs = asarray fw kernel_p dt,
             window_strides = (case strides of None \<Rightarrow> replicate (ndim inputs - 2) 1 | Some s \<Rightarrow> s),
             conv_padding = pad, lhs_dilation = ld, rhs_dilation = rd,
             dimension_numbers = conv_dimension_numbers_of (shape inputs),
             feature_group_count = fgc, conv_precision = prec\<rparr> = Inr y"
    and pb: "param st1 rng ''bias'' [int features] (\<lambda>r s. Inr (cbi r s float32))
         = (Inr bias_p, st')"
    and ad: "add fw y (asarray fw bias_p dt) = Inr out"
    by auto
  have "st1 ''kernel'' = Some kernel_p" using param_result[OF pk] by simp
  then have "st' ''kernel'' = Some kernel_p" and "st' ''bias'' = Some bias_p"
    using param_result[OF pb] by simp_all
  moreover have "dtype out = promote_types fw (dtype y) dt"
    using dtype_add[OF ad] by simp
  ultimately show "\<exists>kernel_p bias_p y.
          st' ''kernel'' = Some kernel_p \<and> st' ''bias'' = Some bias_p
        \<and> conv \<lparr>conv_lhs = asarray fw inputs dt, conv_rhs = asarray fw kernel_p dt,
                 window_strides =
                   (case strides of None \<Rightarrow> replicate (ndim inputs - 2) 1 | Some s \<Rightarrow> s),
                 conv_padding = pad, lhs_dilation = ld, rhs_dilation = rd,
                 dimension_numbers = conv_dimension_numbers_of (shape inputs),
                 feature_group_count = fgc, conv_precision = prec\<rparr> = Inr y
        \<and> add fw y (asarray fw bias_p dt) = Inr out
        \<and> dtype out = promote_types fw (dtype y) dt"
    using cv ad by blast
qed


theorem Dense_bias_not_cast_witness:
  "(\<exists>out st'. Dense_apply example_fw () ones zeros x23 2 True float32 None
        [''kernel'' \<mapsto> kernel32, ''bias'' \<mapsto> bias2\<lparr>dtype := float64\<rparr>] = (Inr out, st')
      \<and> dtype out = float64)
   \<and> (\<exists>out st'. Conv_apply example_fw shape_only_conv () ones_int zeros_int x145 3 [1] None SAME None None
        1 True float32 None [''kernel'' \<mapsto> conv_kernel, ''bias'' \<mapsto> bias3] = (Inr out, st')
      \<and> dtype out = float32)"
proof -
  define sd where "sd = [''kernel'' \<mapsto> kernel32, ''bias'' \<mapsto> bias2\<lparr>dtype := float64\<rparr>]"
  define rd where "rd = Dense_apply example_fw () ones zeros x23 2 True float32 None sd"
  have "fst rd = Inr \<lparr>shape = [2, 2], dtype = float64, data = [14, 25, 20, 31]\<rparr>"
    unfolding rd_def sd_def by code_simp
  moreover have "snd rd = sd"
    unfolding rd_def sd_def by (simp add: Dense_apply_def Let_def param_def split: sum.splits)
  ultimately have rund: "Dense_apply example_fw () ones zeros x23 2 True float32 None sd
      = (Inr \<lparr>shape = [2, 2], dtype = float64, data = [14, 25, 20, 31]\<rparr>, sd)"
    unfolding rd_def by (metis prod.collapse)
  define sc where "sc = [''kernel'' \<mapsto> conv_kernel, ''bias'' \<mapsto> bias3]"
  define rc where "rc = Conv_apply example_fw shape_only_conv () ones_int zeros_int x145 3 [1] None SAME
      None None 1 True float32 None sc"
  have "fst rc = Inr \<lparr>shape = [1, 4, 3], dtype = float32,
      data = [1, 2, 3, 1, 2, 3, 1, 2, 3, 1, 2, 3]\<rparr>"
    unfolding rc_def sc_def by code_simp
  moreover have "snd rc = sc"
    unfolding rc_def sc_def
    by (simp add: Conv_apply_def Let_def param_def shape_at_def ndim_def x145_def
        shape_only_conv_def split: sum.splits)
  ultimately have runc: "Conv_apply example_fw shape_only_conv () ones_int zeros_int x145 3 [1] None SAME
      None None 1 True float32 None sc
      = (Inr \<lparr>shape = [1, 4, 3], dtype = float32,
              data = [1, 2, 3, 1, 2, 3, 1, 2, 3, 1, 2, 3]\<rparr>, sc)"
    unfolding rc_def by (metis prod.collapse)
  from Dense_bias_not_cast[where fw = example_fw and rng = "()" and ki = ones and bi = zeros
      and inputs = x23 and features = 2 and dt = float32 and prec = None and st = sd
      and out = "\<lparr>shape = [2, 2], dtype = float64, data = [14, 25, 20, 31]\<rparr>" and st' = sd]
    rund
  obtain bias_p where "sd ''bias'' = Some bias_p"
    and "dtype \<lparr>shape = [2, 2], dtype = float64, data = [14, 25, 20, 31 :: rat]\<rparr>
        = promote_types example_fw float32 (dtype bias_p)"
    by blast
  then have d: "promote_types example_fw float32 float64 = float64"
    by (auto simp: sd_def)
  from Dense_bias_not_cast[where fw = example_fw and conv = shape_only_conv and rng = "()"
      and cki = ones_int and cbi = zeros_int and inputs = x145 and features = 3 and ks = "[1]"
      and strides = None and pad = SAME and ld = None and rd = None and fgc = 1
      and dt = float32 and prec = None and st = sc
      and out = "\<lparr>shape = [1, 4, 3], dtype = float32,
              data = [1, 2, 3, 1, 2, 3, 1, 2, 3, 1, 2, 3]\<rparr>" and st' = sc]
    runc
  obtain y kernel_p where
    "shape_only_conv \<lparr>conv_lhs = asarray example_fw x145 float32,
        conv_rhs = asarray example_fw kernel_p float32,
        window_strides = (case None of None \<Rightarrow> replicate (ndim x145 - 2) 1 | Some s \<Rightarrow> s),
        conv_padding = SAME, lhs_dilation = None, rhs_dilation = None,
        dimension_numbers = conv_dimension_numbers_of (shape x145),
        feature_group_count = 1, conv_precision = None\<rparr> = Inr y"
    and "dtype \<lparr>shape = [1, 4, 3], dtype = float32,
              data = [1, 2, 3, 1, 2, 3, 1, 2, 3, 1, 2, 3 :: rat]\<rparr>
        = promote_types example_fw (dtype y) float32"
    by blast
  then have c: "promote_types example_fw float32 float32 = float32"
    by (auto simp: shape_only_conv_def Let_def)
  show ?thesis
    using rund runc d c unfolding sd_def sc_def by auto
qed


end
